theory Spec2Isabelle
  imports
    Complex_Main
    "HOL-Library.Log_Nat"
    "HOL-Library.List_Lexorder"
    "HOL-Library.Char_ord"
begin

section \<open>Scatter plot: outlier annotation and legend construction\<close>

text \<open>
  A shallow embedding of \<^verbatim>\<open>ScatterPlot.Dataset.create_figure\<close>
  (\<^verbatim>\<open>multiqc/plots/plotly/scatter.py\<close>, lines 69-173).

  Conventions of the embedding:
  \<^item> a point is a Python dictionary; the keys the function reads are the fields of the
    record \<open>point\<close>. The keys \<^verbatim>\<open>x\<close>, \<^verbatim>\<open>y\<close> and \<^verbatim>\<open>name\<close> are read with
    \<^verbatim>\<open>el["x"]\<close> and are required; every other key is read with \<^verbatim>\<open>.get\<close> or
    \<^verbatim>\<open>in\<close> and is an \<open>option\<close> (\<open>None\<close>: the key is absent);
  \<^item> a coordinate is a Python number (\<open>coord\<close>): a finite value, a float that is
    \<^verbatim>\<open>nan\<close> or infinite, or an int beyond the range of doubles. The results of numpy are
    values of \<open>npfloat\<close>, a real number or \<open>NaN\<close>; the arithmetic on finite values is
    that of the real numbers, without the rounding and the overflow of doubles;
  \<^item> the variable \<^verbatim>\<open>threshold\<close> is a Python float that only ever holds \<^verbatim>\<open>1.0\<close> and the
    results of \<^verbatim>\<open>threshold += 0.2\<close>; its values are the exact values of the doubles, with
    the addition rounded to the nearest double (\<open>fadd\<close>);
  \<^item> strings are lists of 8-bit characters, ordered by character code as Python orders
    strings by code point;
  \<^item> the in-place mutation of the points is explicit: the functions return the new list.
\<close>

subsection \<open>Points\<close>

text \<open>The numbers a coordinate can be: \<open>Fin r\<close> is a finite float, or an int that a double
  can hold; \<open>NonFinite\<close> is one of the floats \<^verbatim>\<open>nan\<close>, \<^verbatim>\<open>inf\<close> and \<^verbatim>\<open>-inf\<close>; \<open>TooBig\<close> is
  an int beyond the range of doubles, such as \<^verbatim>\<open>10**400\<close>.\<close>

datatype coord = Fin real | NonFinite | TooBig

record point =
  p_x :: coord
  p_y :: coord
  p_name :: string
  p_color :: "string option"
  p_group :: "string option"
  p_marker_size :: "real option"
  p_marker_line_width :: "real option"
  p_opacity :: "real option"
  p_annotate :: "bool option"
  p_hide_in_legend :: "bool option"
  p_annotation :: "string option"

text \<open>Python truthiness of an optional string (\<^verbatim>\<open>if color:\<close>) and an optional bool.\<close>

definition truthy_str :: "string option \<Rightarrow> bool" where
  "truthy_str s = (case s of None \<Rightarrow> False | Some v \<Rightarrow> v \<noteq> [])"

definition truthy_bool :: "bool option \<Rightarrow> bool" where
  "truthy_bool b = (case b of None \<Rightarrow> False | Some v \<Rightarrow> v)"

subsection \<open>The numpy operations the selector uses\<close>

datatype npfloat = NaN | Num real

datatype error = OverflowError

text \<open>The values of an array when all of them are finite.\<close>

fun fin_opt :: "coord \<Rightarrow> real option" where
  "fin_opt (Fin r) = Some r"
| "fin_opt NonFinite = None"
| "fin_opt TooBig = None"

definition finite_values :: "coord list \<Rightarrow> real list option" where
  "finite_values vs = those (map fin_opt vs)"

text \<open>\<^verbatim>\<open>np.mean\<close>: \<open>NaN\<close> on the empty array (numpy warns and does not raise). The mean of
  an array with a \<^verbatim>\<open>nan\<close> or an infinite element is \<^verbatim>\<open>nan\<close> or infinite; line 96 only
  subtracts it and divides by a standard deviation that is \<^verbatim>\<open>nan\<close> then, so \<open>NaN\<close> stands
  for it. Line 96 is not reached with an int beyond the range of doubles.\<close>

definition np_mean :: "coord list \<Rightarrow> npfloat" where
  "np_mean vs =
     (case finite_values vs of
        None \<Rightarrow> NaN
      | Some rs \<Rightarrow> if rs = [] then NaN else Num (sum_list rs / real (length rs)))"

text \<open>The value of \<^verbatim>\<open>np.std\<close> (population standard deviation) when it returns: \<open>NaN\<close> on
  the empty array and on an array with a \<^verbatim>\<open>nan\<close> or an infinite element.\<close>

definition np_std_value :: "coord list \<Rightarrow> npfloat" where
  "np_std_value vs =
     (case finite_values vs of
        None \<Rightarrow> NaN
      | Some rs \<Rightarrow>
          if rs = [] then NaN
          else let m = sum_list rs / real (length rs)
               in Num (sqrt (sum_list (map (\<lambda>v. \<bar>v - m\<bar> ^ 2) rs) / real (length rs))))"

text \<open>\<^verbatim>\<open>np.std\<close>: an int beyond the range of doubles makes numpy keep Python objects, and
  the mean inside \<^verbatim>\<open>np.std\<close> raises \<^verbatim>\<open>OverflowError\<close> when it turns that int into a
  float.\<close>

definition np_std :: "coord list \<Rightarrow> error + npfloat" where
  "np_std vs = (if TooBig \<in> set vs then Inl OverflowError else Inr (np_std_value vs))"

text \<open>An element of the array as a float.\<close>

fun np_of :: "coord \<Rightarrow> npfloat" where
  "np_of (Fin r) = Num r"
| "np_of NonFinite = NaN"
| "np_of TooBig = NaN"

text \<open>\<^verbatim>\<open>x_std == 0\<close> is false on \<open>NaN\<close>; \<^verbatim>\<open>if x_std\<close> is true on \<open>NaN\<close>.\<close>

definition np_is_zero :: "npfloat \<Rightarrow> bool" where
  "np_is_zero s = (case s of NaN \<Rightarrow> False | Num r \<Rightarrow> r = 0)"

definition np_truthy :: "npfloat \<Rightarrow> bool" where
  "np_truthy s = (case s of NaN \<Rightarrow> True | Num r \<Rightarrow> r \<noteq> 0)"

definition np_sub :: "npfloat \<Rightarrow> npfloat \<Rightarrow> npfloat" where
  "np_sub a b = (case (a, b) of (Num u, Num v) \<Rightarrow> Num (u - v) | _ \<Rightarrow> NaN)"

text \<open>The source divides only by a standard deviation that passed \<^verbatim>\<open>if x_std\<close>, so the
  divisor is never zero; a zero divisor is given \<open>NaN\<close> here and is never reached.\<close>

definition np_div :: "npfloat \<Rightarrow> npfloat \<Rightarrow> npfloat" where
  "np_div a b = (case (a, b) of (Num u, Num v) \<Rightarrow> (if v = 0 then NaN else Num (u / v)) | _ \<Rightarrow> NaN)"

definition np_abs :: "npfloat \<Rightarrow> npfloat" where
  "np_abs a = (case a of NaN \<Rightarrow> NaN | Num u \<Rightarrow> Num \<bar>u\<bar>)"

text \<open>\<^verbatim>\<open>z > threshold\<close>: a comparison with \<open>NaN\<close> is false.\<close>

definition np_gt :: "npfloat \<Rightarrow> real \<Rightarrow> bool" where
  "np_gt z t = (case z of NaN \<Rightarrow> False | Num r \<Rightarrow> t < r)"

text \<open>Line 96 (and 97): the Z-scores of one axis.\<close>

definition z_scores :: "coord list \<Rightarrow> npfloat \<Rightarrow> npfloat list" where
  "z_scores values sd =
     (if np_truthy sd
      then map (\<lambda>v. np_abs (np_div (np_sub (np_of v) (np_mean values)) sd)) values
      else map (\<lambda>v. Num 0) values)"

text \<open>Line 101: \<^verbatim>\<open>np.count_nonzero((x_z_scores > threshold) | (y_z_scores > threshold))\<close>.\<close>

definition n_outliers :: "npfloat list \<Rightarrow> npfloat list \<Rightarrow> real \<Rightarrow> nat" where
  "n_outliers x_z_scores y_z_scores threshold =
     length (filter (\<lambda>(xz, yz). np_gt xz threshold \<or> np_gt yz threshold)
                    (zip x_z_scores y_z_scores))"

subsection \<open>Double-precision addition for the threshold\<close>

text \<open>Rounding of a real number to the nearest double, ties to even (53-bit significand; the
  exponent range is not bounded, the thresholds stay between 0.2 and 6.2).\<close>

definition round_half_even :: "real \<Rightarrow> int" where
  "round_half_even q =
     (let f = \<lfloor>q\<rfloor>; d = q - of_int f
      in if d < 1 / 2 then f else if 1 / 2 < d then f + 1 else if even f then f else f + 1)"

text \<open>The binary exponent \<open>\<lfloor>log\<^sub>2 \<bar>q\<bar>\<rfloor>\<close> of a non-zero number.\<close>

definition ilog2 :: "real \<Rightarrow> int" where
  "ilog2 q =
     (if 1 \<le> \<bar>q\<bar> then int (floorlog 2 (nat \<lfloor>\<bar>q\<bar>\<rfloor>)) - 1
      else - int (floorlog 2 (nat (\<lceil>1 / \<bar>q\<bar>\<rceil> - 1))))"

definition round_double :: "real \<Rightarrow> real" where
  "round_double q =
     (if q = 0 then 0
      else let u = 2 powi (ilog2 q - 52) in of_int (round_half_even (q / u)) * u)"

definition fadd :: "real \<Rightarrow> real \<Rightarrow> real" where
  "fadd a b = round_double (a + b)"

text \<open>The float literal \<^verbatim>\<open>0.2\<close>.\<close>

definition lit_0_2 :: real where
  "lit_0_2 = round_double (2 / 10)"

subsection \<open>The Outlier Selector (lines 80-112)\<close>

definition MAX_ANNOTATIONS :: nat where
  "MAX_ANNOTATIONS = 10"

text \<open>Lines 81 and 112: \<^verbatim>\<open>len([el for el in self.points if "annotation" in el])\<close>.\<close>

definition count_annotated :: "point list \<Rightarrow> nat" where
  "count_annotated ps = length (filter (\<lambda>el. p_annotation el \<noteq> None) ps)"

text \<open>Line 85: the candidates, each with its index in \<^verbatim>\<open>self.points\<close>.\<close>

definition candidates :: "point list \<Rightarrow> (nat \<times> point) list" where
  "candidates ps = filter (\<lambda>(i, el). p_annotate el \<noteq> Some False) (enumerate 0 ps)"

text \<open>Lines 94 and 111: \<^verbatim>\<open>point["annotation"] = point["name"]\<close>, on the point at index
  \<open>i\<close> of the list (the candidate is that very dictionary).\<close>

definition set_annotation :: "nat \<Rightarrow> point list \<Rightarrow> point list" where
  "set_annotation i ps = ps[i := (ps ! i)\<lparr>p_annotation := Some (p_name (ps ! i))\<rparr>]"

text \<open>Lines 99-106: the threshold search. \<open>None\<close> is a loop that never ends.\<close>

partial_function (option) threshold_loop ::
  "nat \<Rightarrow> npfloat list \<Rightarrow> npfloat list \<Rightarrow> real \<Rightarrow> real option" where
  "threshold_loop n_annotated x_z_scores y_z_scores threshold =
     (if threshold \<le> 6
      then (if n_annotated + n_outliers x_z_scores y_z_scores threshold \<le> MAX_ANNOTATIONS
            then Some threshold
            else threshold_loop n_annotated x_z_scores y_z_scores (fadd threshold lit_0_2))
      else Some threshold)"

text \<open>Lines 108-111: annotate the candidates whose Z-score passes the threshold.\<close>

fun annotate_outliers ::
  "(nat \<times> point) list \<Rightarrow> npfloat list \<Rightarrow> npfloat list \<Rightarrow> real \<Rightarrow> point list \<Rightarrow> point list" where
  "annotate_outliers ((i, el) # points) (xz # x_z_scores) (yz # y_z_scores) threshold ps =
     annotate_outliers points x_z_scores y_z_scores threshold
       (if np_gt xz threshold \<or> np_gt yz threshold then set_annotation i ps else ps)"
| "annotate_outliers _ _ _ threshold ps = ps"

text \<open>The only thing the selector logs above debug level: the warning of line 91, with the
  number of candidates it reports.\<close>

datatype log_event = SameCoordinates nat

text \<open>Lines 81-111. \<open>Some (Inr (ps', logged))\<close>: the selector returns, with the mutated point
  list and the warnings logged. \<open>Some (Inl e)\<close>: it raises \<open>e\<close>, at line 88 or 89, before it
  has changed any point. \<open>None\<close>: the threshold loop does not end.\<close>

definition select_outliers :: "point list \<Rightarrow> (error + point list \<times> log_event list) option" where
  "select_outliers ps =
     (let n_annotated = count_annotated ps in
      if n_annotated < MAX_ANNOTATIONS then
        let points = candidates ps;
            x_values = map (\<lambda>(i, el). p_x el) points;
            y_values = map (\<lambda>(i, el). p_y el) points
        in (case np_std x_values of
              Inl e \<Rightarrow> Some (Inl e)
            | Inr x_std \<Rightarrow>
                (case np_std y_values of
                   Inl e \<Rightarrow> Some (Inl e)
                 | Inr y_std \<Rightarrow>
                     if np_is_zero x_std \<and> np_is_zero y_std then
                       Some (Inr (if length points = 1
                                  then fold (\<lambda>(i, el). set_annotation i) points ps else ps,
                                  [SameCoordinates (length points)]))
                     else
                       let x_z_scores = z_scores x_values x_std;
                           y_z_scores = z_scores y_values y_std
                       in (case threshold_loop n_annotated x_z_scores y_z_scores 1 of
                             None \<Rightarrow> None
                           | Some threshold \<Rightarrow>
                               Some (Inr (annotate_outliers points x_z_scores y_z_scores
                                            threshold ps, [])))))
      else Some (Inr (ps, [])))"

subsection \<open>The Legend Builder (lines 116-143)\<close>

type_synonym legend_key = "string option \<times> real option \<times> real option \<times> string option"

text \<open>Lines 118 and 132: \<^verbatim>\<open>(color, marker_size, marker_line_width, group)\<close>.\<close>

definition legend_key_of :: "point \<Rightarrow> legend_key" where
  "legend_key_of el = (p_color el, p_marker_size el, p_marker_line_width el, p_group el)"

text \<open>Lines 116-119: a \<^verbatim>\<open>defaultdict(set)\<close>, the names of every point under its key.\<close>

definition names_by_legend_key :: "point list \<Rightarrow> legend_key \<Rightarrow> string set" where
  "names_by_legend_key ps =
     fold (\<lambda>el m. m(legend_key_of el := insert (p_name el) (m (legend_key_of el)))) ps (\<lambda>k. {})"

text \<open>\<^verbatim>\<open>", ".join(names)\<close>.\<close>

fun join_comma :: "string list \<Rightarrow> string" where
  "join_comma [] = []"
| "join_comma [a] = a"
| "join_comma (a # b # names) = a @ '', '' @ join_comma (b # names)"

definition MAX_WIDTH :: nat where
  "MAX_WIDTH = 60"

text \<open>Lines 135-141: the label of a legend entry, from the group and the names of its key.\<close>

definition legend_label :: "string option \<Rightarrow> string set \<Rightarrow> string" where
  "legend_label grp names =
     (let label = join_comma (sorted_list_of_set names);
          label = (case grp of
                     None \<Rightarrow> label
                   | Some g \<Rightarrow> if g \<noteq> [] then g @ '': '' @ label else label)
      in if length label > MAX_WIDTH then take MAX_WIDTH label @ ''...'' else label)"

subsection \<open>Trace emission (lines 122-173)\<close>

record marker =
  mk_size :: real
  mk_line_width :: real
  mk_line_color :: "string option"
  mk_opacity :: real
  mk_color :: string

text \<open>\<^verbatim>\<open>self.trace_params\<close> belongs to the base class, which is not part of this file: it is
  a parameter. Only the keys this function touches are modelled (\<^verbatim>\<open>marker\<close>, popped at line
  146, and \<^verbatim>\<open>mode\<close>, set at line 157); the others are passed on to plotly unchanged.\<close>

record trace_params =
  tp_mode :: "string option"
  tp_marker :: marker

text \<open>The keyword arguments of \<^verbatim>\<open>go.Scatter\<close> (lines 162-170).\<close>

record trace =
  tr_x :: "coord list"
  tr_y :: "coord list"
  tr_name :: string
  tr_text :: "string list"
  tr_showlegend :: bool
  tr_marker :: marker
  tr_mode :: "string option"

text \<open>One iteration of the loop of line 123: the trace of one point and the new
  \<^verbatim>\<open>in_legend\<close>. \<^verbatim>\<open>layout.showlegend\<close> has been set to \<open>True\<close> at line 120.\<close>

definition point_trace ::
  "trace_params \<Rightarrow> nat \<Rightarrow> (legend_key \<Rightarrow> string set) \<Rightarrow> legend_key set \<Rightarrow> point
     \<Rightarrow> trace \<times> legend_key set" where
  "point_trace params n_annotated names_by_key in_legend element =
     (let layout_showlegend = True;
          key = legend_key_of element;
          first_of_key = (layout_showlegend \<and> \<not> truthy_bool (p_hide_in_legend element)
                          \<and> key \<notin> in_legend);
          in_legend' = (if first_of_key then insert key in_legend else in_legend);
          name = (if first_of_key then legend_label (p_group element) (names_by_key key)
                  else p_name element);
          show_in_legend = first_of_key;
          marker = tp_marker params;
          marker = (if truthy_str (p_color element)
                    then marker\<lparr>mk_color := the (p_color element)\<rparr> else marker);
          marker = (case p_marker_line_width element of
                      None \<Rightarrow> marker | Some w \<Rightarrow> marker\<lparr>mk_line_width := w\<rparr>);
          marker = (case p_marker_size element of
                      None \<Rightarrow> marker | Some s \<Rightarrow> marker\<lparr>mk_size := s\<rparr>);
          marker = (case p_opacity element of
                      None \<Rightarrow> marker | Some opc \<Rightarrow> marker\<lparr>mk_opacity := opc\<rparr>);
          mode = (if truthy_str (p_annotation element) then Some ''markers+text''
                  else tp_mode params);
          marker = (if n_annotated > 0
                    then marker\<lparr>mk_line_color := Some ''rgba(0, 0, 0, .2)''\<rparr> else marker)
      in (\<lparr>tr_x = [p_x element], tr_y = [p_y element], tr_name = name,
           tr_text = [if truthy_str (p_annotation element) then the (p_annotation element)
                      else name],
           tr_showlegend = show_in_legend, tr_marker = marker, tr_mode = mode\<rparr>,
          in_legend'))"

fun add_traces ::
  "trace_params \<Rightarrow> nat \<Rightarrow> (legend_key \<Rightarrow> string set) \<Rightarrow> legend_key set \<Rightarrow> point list
     \<Rightarrow> trace list \<times> legend_key set" where
  "add_traces params n_annotated names_by_key in_legend [] = ([], in_legend)"
| "add_traces params n_annotated names_by_key in_legend (element # points) =
     (let (tr, in_legend') = point_trace params n_annotated names_by_key in_legend element;
          (trs, in_legend'') = add_traces params n_annotated names_by_key in_legend' points
      in (tr # trs, in_legend''))"

record figure =
  fig_traces :: "trace list"
  fig_height :: int

text \<open>Lines 78-173. The layout height is a parameter; the result is the figure, the
  points as the selector left them and the warnings logged, or the error the selector
  raised.\<close>

definition create_figure ::
  "trace_params \<Rightarrow> int \<Rightarrow> point list
     \<Rightarrow> (error + figure \<times> point list \<times> log_event list) option" where
  "create_figure params height ps =
     (case select_outliers ps of
        None \<Rightarrow> None
      | Some (Inl e) \<Rightarrow> Some (Inl e)
      | Some (Inr (ps', logged)) \<Rightarrow>
          let n_annotated = (if count_annotated ps < MAX_ANNOTATIONS
                             then count_annotated ps' else count_annotated ps);
              names_by_key = names_by_legend_key ps';
              (traces, in_legend) = add_traces params n_annotated names_by_key {} ps'
          in Some (Inr (\<lparr>fig_traces = traces, fig_height = height + int (card in_legend) * 5\<rparr>,
                        ps', logged)))"

subsection \<open>Notions used to state the properties\<close>

text \<open>The successive values of \<^verbatim>\<open>threshold\<close>: \<open>thresholds_from t k\<close> are the first \<open>k\<close>
  values starting at \<open>t\<close>, \<open>threshold_after t k\<close> is the value after \<open>k\<close> additions of
  \<^verbatim>\<open>0.2\<close>.\<close>

fun thresholds_from :: "real \<Rightarrow> nat \<Rightarrow> real list" where
  "thresholds_from t 0 = []"
| "thresholds_from t (Suc k) = t # thresholds_from (fadd t lit_0_2) k"

fun threshold_after :: "real \<Rightarrow> nat \<Rightarrow> real" where
  "threshold_after t 0 = t"
| "threshold_after t (Suc k) = threshold_after (fadd t lit_0_2) k"

definition tried_thresholds :: "real list" where
  "tried_thresholds = thresholds_from 1 25"

definition exit_threshold :: real where
  "exit_threshold = threshold_after 1 25"

text \<open>The label of a legend entry before it is cropped: the sorted names joined by
  commas, after the group and a colon when the group is a non-empty string.\<close>

definition full_label :: "string option \<Rightarrow> string set \<Rightarrow> string" where
  "full_label grp names =
     (if truthy_str grp then the grp @ '': '' else []) @ join_comma (sorted_list_of_set names)"

text \<open>A candidate is a point that line 85 keeps; \<open>annotated\<close> is the effect of
  \<^verbatim>\<open>point["annotation"] = point["name"]\<close> on one point.\<close>

definition is_candidate :: "point \<Rightarrow> bool" where
  "is_candidate el = (p_annotate el \<noteq> Some False)"

definition annotated :: "point \<Rightarrow> point" where
  "annotated el = el\<lparr>p_annotation := Some (p_name el)\<rparr>"

text \<open>The coordinates of the candidates, the Z-score of one value among them, and the
  points that pass a threshold.\<close>

definition cand_xs :: "point list \<Rightarrow> coord list" where
  "cand_xs ps = map p_x (filter is_candidate ps)"

definition cand_ys :: "point list \<Rightarrow> coord list" where
  "cand_ys ps = map p_y (filter is_candidate ps)"

definition z_score :: "coord list \<Rightarrow> npfloat \<Rightarrow> coord \<Rightarrow> npfloat" where
  "z_score values sd v =
     (if np_truthy sd then np_abs (np_div (np_sub (np_of v) (np_mean values)) sd) else Num 0)"

definition is_outlier :: "point list \<Rightarrow> real \<Rightarrow> point \<Rightarrow> bool" where
  "is_outlier ps t el =
     (is_candidate el \<and>
      (np_gt (z_score (cand_xs ps) (np_std_value (cand_xs ps)) (p_x el)) t \<or>
       np_gt (z_score (cand_ys ps) (np_std_value (cand_ys ps)) (p_y el)) t))"

definition outlier_count :: "point list \<Rightarrow> real \<Rightarrow> nat" where
  "outlier_count ps t = length (filter (is_outlier ps t) ps)"

text \<open>The number of points with a non-empty annotation.\<close>

definition count_nonempty :: "point list \<Rightarrow> nat" where
  "count_nonempty ps = length (filter (\<lambda>el. truthy_str (p_annotation el)) ps)"

text \<open>The threshold the search leaves in \<^verbatim>\<open>threshold\<close> for the annotation step: the
  first tried threshold at which the annotations fit, or else the value that ended the
  loop.\<close>

definition chosen_threshold :: "point list \<Rightarrow> real" where
  "chosen_threshold ps =
     (case find (\<lambda>t. count_annotated ps + outlier_count ps t \<le> 10) tried_thresholds of
        Some t \<Rightarrow> t | None \<Rightarrow> exit_threshold)"

text \<open>The points the selector picks, when it raises no error: none when ten points are
  annotated already; the sole candidate when the candidates show no spread (line 92);
  otherwise the candidates whose Z-score on either axis exceeds the threshold the search
  has left (line 110).\<close>

definition picked :: "point list \<Rightarrow> point \<Rightarrow> bool" where
  "picked ps el =
     (count_annotated ps < 10 \<and> p_annotate el \<noteq> Some False \<and>
      (if np_is_zero (np_std_value (cand_xs ps)) \<and> np_is_zero (np_std_value (cand_ys ps))
       then length (filter is_candidate ps) = 1
       else np_gt (z_score (cand_xs ps) (np_std_value (cand_xs ps)) (p_x el))
                  (chosen_threshold ps) \<or>
            np_gt (z_score (cand_ys ps) (np_std_value (cand_ys ps)) (p_y el))
                  (chosen_threshold ps)))"

text \<open>A point with the three required keys only, at finite coordinates.\<close>

definition pt :: "real \<Rightarrow> real \<Rightarrow> string \<Rightarrow> point" where
  "pt a b n =
     \<lparr>p_x = Fin a, p_y = Fin b, p_name = n, p_color = None, p_group = None, p_marker_size = None,
      p_marker_line_width = None, p_opacity = None, p_annotate = None,
      p_hide_in_legend = None, p_annotation = None\<rparr>"

text \<open>Two points that are the same, except that an excluded point (\<^verbatim>\<open>annotate\<close> is
  \<open>False\<close>) may have other coordinates.\<close>

definition same_but_excluded_xy :: "point \<Rightarrow> point \<Rightarrow> bool" where
  "same_but_excluded_xy p q =
     (if p_annotate p = Some False
      then q\<lparr>p_x := Fin 0, p_y := Fin 0\<rparr> = p\<lparr>p_x := Fin 0, p_y := Fin 0\<rparr>
      else q = p)"

text \<open>A small dataset: four points at the origin, one at \<open>(5, 0)\<close>, and an excluded
  point whose coordinates are the parameters.\<close>

definition five_and_excluded :: "real \<Rightarrow> real \<Rightarrow> point list" where
  "five_and_excluded a b =
     [pt 0 0 ''a'', pt 0 0 ''b'', (pt a b ''ex'')\<lparr>p_annotate := Some False\<rparr>,
      pt 0 0 ''c'', pt 5 0 ''far'', pt 0 0 ''d'']"

text \<open>A crowded dataset of 50 candidates: one point far out on each axis, nine points at
  the origin that already carry an annotation, and 39 more points at the origin.\<close>

definition crowded :: "point list" where
  "crowded =
     [pt 50 0 ''A'', pt 0 50 ''B''] @
     replicate 9 ((pt 0 0 ''n'')\<lparr>p_annotation := Some ''note''\<rparr>) @
     replicate 39 (pt 0 0 ''o'')"

text \<open>A point is hidden from the legend when \<^verbatim>\<open>hide_in_legend\<close> is true; the visible keys
  of a list are the legend keys of its points that are not hidden.\<close>

definition hidden :: "point \<Rightarrow> bool" where
  "hidden el = truthy_bool (p_hide_in_legend el)"

definition visible_keys :: "point list \<Rightarrow> legend_key set" where
  "visible_keys qs = legend_key_of ` {el \<in> set qs. \<not> hidden el}"

text \<open>The trace parameters as \<^verbatim>\<open>Dataset.create\<close> leaves them (lines 50-58): a marker, and
  no mode.\<close>

definition scatter_trace_params :: trace_params where
  "scatter_trace_params =
     \<lparr>tp_mode = None,
      tp_marker = \<lparr>mk_size = 10, mk_line_width = 1, mk_line_color = None, mk_opacity = 1,
                   mk_color = ''rgba(124, 181, 236, .5)''\<rparr>\<rparr>"

text \<open>Three points that the selector leaves alone: two of one legend key, the first of
  them hidden from the legend, and a hidden point that is alone with its key.\<close>

definition legend_example :: "point list" where
  "legend_example =
     [(pt 0 0 ''B'')\<lparr>p_annotate := Some False, p_hide_in_legend := Some True\<rparr>,
      (pt 1 1 ''A'')\<lparr>p_annotate := Some False\<rparr>,
      (pt 2 2 ''C'')\<lparr>p_color := Some ''red'', p_annotate := Some False,
                     p_hide_in_legend := Some True\<rparr>]"


section \<open>Properties\<close>

subsection \<open>The thresholds of the search\<close>

lemma floorlog2_small:
  "floorlog 2 (Suc 0) = 1" "floorlog 2 2 = 2" "floorlog 2 3 = 2" "floorlog 2 4 = 3"
  "floorlog 2 5 = 3" "floorlog 2 6 = 3" "floorlog 2 7 = 3"
  by code_simp+

lemma nat_floor_cases:
  fixes q :: real
  shows "1 \<le> q \<Longrightarrow> q < 2 \<Longrightarrow> nat \<lfloor>q\<rfloor> = Suc 0"
    and "2 \<le> q \<Longrightarrow> q < 4 \<Longrightarrow> nat \<lfloor>q\<rfloor> = 2 \<or> nat \<lfloor>q\<rfloor> = 3"
    and "4 \<le> q \<Longrightarrow> q < 8 \<Longrightarrow> nat \<lfloor>q\<rfloor> \<in> {4, 5, 6, 7}"
proof -
  show "1 \<le> q \<Longrightarrow> q < 2 \<Longrightarrow> nat \<lfloor>q\<rfloor> = Suc 0"
    by (simp add: floor_eq_iff nat_eq_iff)
  have "2 \<le> q \<Longrightarrow> q < 4 \<Longrightarrow> 2 \<le> \<lfloor>q\<rfloor> \<and> \<lfloor>q\<rfloor> < 4"
    by (simp add: le_floor_iff floor_less_iff)
  then show "2 \<le> q \<Longrightarrow> q < 4 \<Longrightarrow> nat \<lfloor>q\<rfloor> = 2 \<or> nat \<lfloor>q\<rfloor> = 3"
    by linarith
  have "4 \<le> q \<Longrightarrow> q < 8 \<Longrightarrow> 4 \<le> \<lfloor>q\<rfloor> \<and> \<lfloor>q\<rfloor> < 8"
    by (simp add: le_floor_iff floor_less_iff)
  then show "4 \<le> q \<Longrightarrow> q < 8 \<Longrightarrow> nat \<lfloor>q\<rfloor> \<in> {4, 5, 6, 7}"
    by (simp add: nat_eq_iff) linarith
qed

lemma ilog2_binade:
  "1 \<le> q \<Longrightarrow> q < 2 \<Longrightarrow> ilog2 q = 0"
  "2 \<le> q \<Longrightarrow> q < 4 \<Longrightarrow> ilog2 q = 1"
  "4 \<le> q \<Longrightarrow> q < 8 \<Longrightarrow> ilog2 q = 2"
  using nat_floor_cases(1) [of q] nat_floor_cases(2) [of q] nat_floor_cases(3) [of q]
  by (auto simp: ilog2_def floorlog2_small)

lemma powi_vals:
  "(2::real) powi (0 - 52) = 1 / 4503599627370496"
  "(2::real) powi (1 - 52) = 1 / 2251799813685248"
  "(2::real) powi (2 - 52) = 1 / 1125899906842624"
  by (simp_all add: power_int_minus)

text \<open>Rounding in the three binades the thresholds visit: the unit in the last place is
  \<open>2\<^sup>-\<^sup>5\<^sup>2\<close>, \<open>2\<^sup>-\<^sup>5\<^sup>1\<close> and \<open>2\<^sup>-\<^sup>5\<^sup>0\<close>.\<close>

lemma round_double_binade:
  "1 \<le> q \<Longrightarrow> q < 2 \<Longrightarrow>
     round_double q = of_int (round_half_even (q * 4503599627370496)) / 4503599627370496"
  "2 \<le> q \<Longrightarrow> q < 4 \<Longrightarrow>
     round_double q = of_int (round_half_even (q * 2251799813685248)) / 2251799813685248"
  "4 \<le> q \<Longrightarrow> q < 8 \<Longrightarrow>
     round_double q = of_int (round_half_even (q * 1125899906842624)) / 1125899906842624"
proof -
  assume a: "1 \<le> q" "q < 2"
  then have "q \<noteq> 0" by simp
  then show "round_double q = of_int (round_half_even (q * 4503599627370496)) / 4503599627370496"
    unfolding round_double_def Let_def ilog2_binade(1) [OF a] powi_vals by simp
next
  assume a: "2 \<le> q" "q < 4"
  then have "q \<noteq> 0" by simp
  then show "round_double q = of_int (round_half_even (q * 2251799813685248)) / 2251799813685248"
    unfolding round_double_def Let_def ilog2_binade(2) [OF a] powi_vals by simp
next
  assume a: "4 \<le> q" "q < 8"
  then have "q \<noteq> 0" by simp
  then show "round_double q = of_int (round_half_even (q * 1125899906842624)) / 1125899906842624"
    unfolding round_double_def Let_def ilog2_binade(3) [OF a] powi_vals by simp
qed

text \<open>The double nearest to 0.2 is a little above it.\<close>

lemma lit_0_2_val: "lit_0_2 = 3602879701896397 / 18014398509481984"
  unfolding lit_0_2_def round_double_def ilog2_def round_half_even_def Let_def
  by (simp add: floorlog2_small power_int_minus)

text \<open>The 25 additions the loop can make, each rounded to the nearest double.\<close>

lemma fadd_steps:
  "fadd 1 lit_0_2 = 5404319552844595 / 4503599627370496"
  "fadd (5404319552844595 / 4503599627370496) lit_0_2 = 3152519739159347 / 2251799813685248"
  "fadd (3152519739159347 / 2251799813685248) lit_0_2 = 7205759403792793 / 4503599627370496"
  "fadd (7205759403792793 / 4503599627370496) lit_0_2 = 2026619832316723 / 1125899906842624"
  "fadd (2026619832316723 / 1125899906842624) lit_0_2 = 9007199254740991 / 4503599627370496"
  "fadd (9007199254740991 / 4503599627370496) lit_0_2 = 4953959590107545 / 2251799813685248"
  "fadd (4953959590107545 / 2251799813685248) lit_0_2 = 5404319552844595 / 2251799813685248"
  "fadd (5404319552844595 / 2251799813685248) lit_0_2 = 5854679515581645 / 2251799813685248"
  "fadd (5854679515581645 / 2251799813685248) lit_0_2 = 6305039478318695 / 2251799813685248"
  "fadd (6305039478318695 / 2251799813685248) lit_0_2 = 6755399441055745 / 2251799813685248"
  "fadd (6755399441055745 / 2251799813685248) lit_0_2 = 7205759403792795 / 2251799813685248"
  "fadd (7205759403792795 / 2251799813685248) lit_0_2 = 7656119366529845 / 2251799813685248"
  "fadd (7656119366529845 / 2251799813685248) lit_0_2 = 8106479329266895 / 2251799813685248"
  "fadd (8106479329266895 / 2251799813685248) lit_0_2 = 8556839292003945 / 2251799813685248"
  "fadd (8556839292003945 / 2251799813685248) lit_0_2 = 4503599627370497 / 1125899906842624"
  "fadd (4503599627370497 / 1125899906842624) lit_0_2 = 2364389804369511 / 562949953421312"
  "fadd (2364389804369511 / 562949953421312) lit_0_2 = 4953959590107547 / 1125899906842624"
  "fadd (4953959590107547 / 1125899906842624) lit_0_2 = 647392446434509 / 140737488355328"
  "fadd (647392446434509 / 140737488355328) lit_0_2 = 5404319552844597 / 1125899906842624"
  "fadd (5404319552844597 / 1125899906842624) lit_0_2 = 2814749767106561 / 562949953421312"
  "fadd (2814749767106561 / 562949953421312) lit_0_2 = 5854679515581647 / 1125899906842624"
  "fadd (5854679515581647 / 1125899906842624) lit_0_2 = 1519964874237543 / 281474976710656"
  "fadd (1519964874237543 / 281474976710656) lit_0_2 = 6305039478318697 / 1125899906842624"
  "fadd (6305039478318697 / 1125899906842624) lit_0_2 = 3265109729843611 / 562949953421312"
  "fadd (3265109729843611 / 562949953421312) lit_0_2 = 6755399441055747 / 1125899906842624"
  unfolding fadd_def lit_0_2_val
  by (simp_all add: round_double_binade round_half_even_def Let_def)

lemma tried_thresholds_val:
  "tried_thresholds =
     [1,
      5404319552844595 / 4503599627370496,
      3152519739159347 / 2251799813685248,
      7205759403792793 / 4503599627370496,
      2026619832316723 / 1125899906842624,
      9007199254740991 / 4503599627370496,
      4953959590107545 / 2251799813685248,
      5404319552844595 / 2251799813685248,
      5854679515581645 / 2251799813685248,
      6305039478318695 / 2251799813685248,
      6755399441055745 / 2251799813685248,
      7205759403792795 / 2251799813685248,
      7656119366529845 / 2251799813685248,
      8106479329266895 / 2251799813685248,
      8556839292003945 / 2251799813685248,
      4503599627370497 / 1125899906842624,
      2364389804369511 / 562949953421312,
      4953959590107547 / 1125899906842624,
      647392446434509 / 140737488355328,
      5404319552844597 / 1125899906842624,
      2814749767106561 / 562949953421312,
      5854679515581647 / 1125899906842624,
      1519964874237543 / 281474976710656,
      6305039478318697 / 1125899906842624,
      3265109729843611 / 562949953421312]"
  unfolding tried_thresholds_def
  by (simp add: eval_nat_numeral fadd_steps)

lemma exit_threshold_val: "exit_threshold = 6755399441055747 / 1125899906842624"
  unfolding exit_threshold_def
  by (simp add: eval_nat_numeral fadd_steps)

lemma threshold_loop_unroll:
  "list_all (\<lambda>t. t \<le> 6) (thresholds_from t0 k) \<Longrightarrow> 6 < threshold_after t0 k \<Longrightarrow>
   threshold_loop n xz yz t0 =
     Some (case find (\<lambda>t. n + n_outliers xz yz t \<le> MAX_ANNOTATIONS) (thresholds_from t0 k) of
             Some t \<Rightarrow> t | None \<Rightarrow> threshold_after t0 k)"
proof (induction k arbitrary: t0)
  case 0
  then show ?case by (subst threshold_loop.simps) simp
next
  case (Suc k)
  from Suc.prems have le: "t0 \<le> 6"
    and rest: "list_all (\<lambda>t. t \<le> 6) (thresholds_from (fadd t0 lit_0_2) k)"
    and ex: "6 < threshold_after (fadd t0 lit_0_2) k"
    by simp_all
  show ?case
    by (subst threshold_loop.simps) (simp add: le Suc.IH [OF rest ex] cong: option.case_cong)
qed

lemma tried_thresholds_le: "list_all (\<lambda>t. t \<le> 6) tried_thresholds"
  unfolding tried_thresholds_val by simp

text \<open>The loop always ends: it returns the first of the 25 thresholds at which the
  annotations fit, and the 26th value when none does.\<close>

lemma threshold_loop_eq:
  "threshold_loop n xz yz 1 =
     Some (case find (\<lambda>t. n + n_outliers xz yz t \<le> MAX_ANNOTATIONS) tried_thresholds of
             Some t \<Rightarrow> t | None \<Rightarrow> exit_threshold)"
proof -
  have "list_all (\<lambda>t. t \<le> 6) (thresholds_from 1 25)"
    using tried_thresholds_le by (simp only: tried_thresholds_def)
  moreover have "6 < threshold_after 1 25"
    using exit_threshold_val by (simp add: exit_threshold_def)
  ultimately show ?thesis
    unfolding tried_thresholds_def exit_threshold_def by (rule threshold_loop_unroll)
qed

subsection \<open>Legend labels\<close>

lemma legend_label_full:
  "legend_label grp names =
     (if length (full_label grp names) > 60 then take 60 (full_label grp names) @ ''...''
      else full_label grp names)"
  unfolding legend_label_def full_label_def truthy_str_def MAX_WIDTH_def Let_def
  by (cases grp) (simp_all del: take_append)



subsection \<open>The selector as a function on the list\<close>

lemma z_scores_map: "z_scores values sd = map (z_score values sd) values"
  by (simp add: z_scores_def z_score_def)

lemma map_snd_candidates: "map snd (candidates ps) = filter is_candidate ps"
proof -
  have "map snd (filter (\<lambda>(i, el). is_candidate el) (enumerate k qs)) = filter is_candidate qs" for k qs
    by (induction qs arbitrary: k) auto
  then show ?thesis by (simp add: candidates_def is_candidate_def)
qed

lemma candidates_alt:
  "candidates ps = filter (\<lambda>(i, el). is_candidate el) (enumerate (length ([]::point list)) ps)"
  by (simp add: candidates_def is_candidate_def)

lemma case_prod_snd: "(\<lambda>(i, el). f el) = f \<circ> snd"
  by auto

lemma x_values_eq: "map (\<lambda>(i, el). p_x el) (candidates ps) = cand_xs ps"
  by (simp add: case_prod_snd cand_xs_def map_snd_candidates [symmetric])

lemma y_values_eq: "map (\<lambda>(i, el). p_y el) (candidates ps) = cand_ys ps"
  by (simp add: case_prod_snd cand_ys_def map_snd_candidates [symmetric])

lemma length_candidates: "length (candidates ps) = length (filter is_candidate ps)"
  by (simp add: map_snd_candidates [symmetric])

lemma set_annotation_append: "set_annotation (length pre) (pre @ q # qs) = pre @ annotated q # qs"
  by (simp add: set_annotation_def annotated_def)

lemma annotate_outliers_append:
  "annotate_outliers (filter (\<lambda>(i, el). is_candidate el) (enumerate (length pre) qs))
       (map (\<lambda>(i, el). fx el) (filter (\<lambda>(i, el). is_candidate el) (enumerate (length pre) qs)))
       (map (\<lambda>(i, el). fy el) (filter (\<lambda>(i, el). is_candidate el) (enumerate (length pre) qs)))
       t (pre @ qs) =
   pre @ map (\<lambda>el. if is_candidate el \<and> (np_gt (fx el) t \<or> np_gt (fy el) t)
                      then annotated el else el) qs"
proof (induction qs arbitrary: pre)
  case Nil
  then show ?case by simp
next
  case (Cons q qs)
  have suc: "Suc (length pre) = length (pre @ [r])" for r :: point by simp
  show ?case
    using Cons.IH [of "pre @ [q]"] Cons.IH [of "pre @ [annotated q]"]
    by (simp add: set_annotation_append del: append_assoc) (simp add: suc del: length_append)
qed

lemma fold_set_annotation_append:
  "fold (\<lambda>(i, el). set_annotation i)
        (filter (\<lambda>(i, el). is_candidate el) (enumerate (length pre) qs)) (pre @ qs) =
   pre @ map (\<lambda>el. if is_candidate el then annotated el else el) qs"
proof (induction qs arbitrary: pre)
  case Nil
  then show ?case by simp
next
  case (Cons q qs)
  have suc: "Suc (length pre) = length (pre @ [r])" for r :: point by simp
  show ?case
    using Cons.IH [of "pre @ [q]"] Cons.IH [of "pre @ [annotated q]"]
    by (simp add: set_annotation_append del: append_assoc) (simp add: suc del: length_append)
qed

lemma x_z_scores_eq:
  "z_scores (cand_xs ps) sd = map (\<lambda>(i, el). z_score (cand_xs ps) sd (p_x el)) (candidates ps)"
  by (simp add: z_scores_map case_prod_snd cand_xs_def map_snd_candidates [symmetric])

lemma y_z_scores_eq:
  "z_scores (cand_ys ps) sd = map (\<lambda>(i, el). z_score (cand_ys ps) sd (p_y el)) (candidates ps)"
  by (simp add: z_scores_map case_prod_snd cand_ys_def map_snd_candidates [symmetric])

lemma count_zip_map:
  "length (filter (\<lambda>(xz, yz). np_gt xz t \<or> np_gt yz t) (zip (map f qs) (map g qs))) =
   length (filter (\<lambda>el. np_gt (f el) t \<or> np_gt (g el) t) qs)"
  by (induction qs) auto

lemma n_outliers_eq:
  "n_outliers (z_scores (cand_xs ps) (np_std_value (cand_xs ps)))
              (z_scores (cand_ys ps) (np_std_value (cand_ys ps))) t = outlier_count ps t"
proof -
  let ?f = "\<lambda>el. z_score (cand_xs ps) (np_std_value (cand_xs ps)) (p_x el)"
  let ?g = "\<lambda>el. z_score (cand_ys ps) (np_std_value (cand_ys ps)) (p_y el)"
  have out: "is_outlier ps t = (\<lambda>el. is_candidate el \<and> (np_gt (?f el) t \<or> np_gt (?g el) t))"
    by (rule ext) (simp add: is_outlier_def)
  have "n_outliers (z_scores (cand_xs ps) (np_std_value (cand_xs ps)))
              (z_scores (cand_ys ps) (np_std_value (cand_ys ps))) t =
        length (filter (\<lambda>el. np_gt (?f el) t \<or> np_gt (?g el) t) (filter is_candidate ps))"
    using count_zip_map [of t ?f "filter is_candidate ps" ?g]
    by (simp add: n_outliers_def z_scores_map cand_xs_def cand_ys_def comp_def)
  also have "\<dots> = outlier_count ps t"
    unfolding outlier_count_def out by (simp add: conj_commute)
  finally show ?thesis .
qed

lemma annotate_outliers_eq:
  "annotate_outliers (candidates ps)
      (z_scores (cand_xs ps) (np_std_value (cand_xs ps)))
      (z_scores (cand_ys ps) (np_std_value (cand_ys ps))) t ps =
   map (\<lambda>el. if is_outlier ps t el then annotated el else el) ps"
  unfolding x_z_scores_eq y_z_scores_eq
  unfolding candidates_alt
  using annotate_outliers_append [of "[]" ps
      "\<lambda>el. z_score (cand_xs ps) (np_std_value (cand_xs ps)) (p_x el)"
      "\<lambda>el. z_score (cand_ys ps) (np_std_value (cand_ys ps)) (p_y el)" t]
  by (simp add: is_outlier_def)

lemma fold_set_annotation_eq:
  "fold (\<lambda>(i, el). set_annotation i) (candidates ps) ps =
   map (\<lambda>el. if is_candidate el then annotated el else el) ps"
  unfolding candidates_alt using fold_set_annotation_append [of "[]" ps] by simp

lemma finite_values_Fin [simp]: "finite_values (map Fin rs) = Some rs"
  unfolding finite_values_def by (induction rs) simp_all

lemma np_std_eq:
  "np_std vs = (if TooBig \<in> set vs then Inl OverflowError else Inr (np_std_value vs))"
  by (simp add: np_std_def)

text \<open>The selector as a function on the list, without indices. It always ends; it raises
  exactly when fewer than ten points are annotated and a coordinate of a candidate is an
  int beyond the range of doubles.\<close>

lemma select_outliers_eq:
  "select_outliers ps =
     Some (if count_annotated ps < 10 then
             if TooBig \<in> set (cand_xs ps) \<or> TooBig \<in> set (cand_ys ps) then Inl OverflowError
             else Inr
              (if np_is_zero (np_std_value (cand_xs ps)) \<and> np_is_zero (np_std_value (cand_ys ps)) then
                 (if length (filter is_candidate ps) = 1
                  then map (\<lambda>el. if is_candidate el then annotated el else el) ps else ps,
                  [SameCoordinates (length (filter is_candidate ps))])
               else (map (\<lambda>el. if is_outlier ps (chosen_threshold ps) el then annotated el else el) ps, []))
           else Inr (ps, []))"
  unfolding select_outliers_def Let_def x_values_eq y_values_eq np_std_eq
  by (simp add: MAX_ANNOTATIONS_def length_candidates fold_set_annotation_eq
      annotate_outliers_eq chosen_threshold_def threshold_loop_eq n_outliers_eq)

subsection \<open>What the selector changes\<close>

lemma np_std_value_single: "np_std_value [Fin v] = Num 0"
  by (simp add: np_std_value_def finite_values_def)

lemma picked_alt:
  "picked ps el =
     (count_annotated ps < 10 \<and>
      (if np_is_zero (np_std_value (cand_xs ps)) \<and> np_is_zero (np_std_value (cand_ys ps))
       then is_candidate el \<and> length (filter is_candidate ps) = 1
       else is_outlier ps (chosen_threshold ps) el))"
  by (auto simp: picked_def is_outlier_def is_candidate_def)

lemma select_outliers_nth:
  assumes "select_outliers ps = Some (Inr (ps', logged))"
  shows "length ps' = length ps"
    and "i < length ps \<Longrightarrow>
           ps' ! i = ps ! i \<or> (is_candidate (ps ! i) \<and> ps' ! i = annotated (ps ! i))"
    and "i < length ps \<Longrightarrow> ps' ! i = (if picked ps (ps ! i) then annotated (ps ! i) else ps ! i)"
  using assms by (auto simp: select_outliers_eq is_outlier_def picked_alt split: if_splits)

text \<open>A sole candidate that already carries an annotation, next to an excluded point.\<close>

lemma select_sole_candidate:
  "select_outliers [(pt 0 0 ''bar'')\<lparr>p_annotation := Some ''foo''\<rparr>,
                    (pt 9 9 ''kept'')\<lparr>p_annotate := Some False, p_annotation := Some ''note''\<rparr>] =
     Some (Inr ([(pt 0 0 ''bar'')\<lparr>p_annotation := Some ''bar''\<rparr>,
                 (pt 9 9 ''kept'')\<lparr>p_annotate := Some False, p_annotation := Some ''note''\<rparr>],
                [SameCoordinates 1]))"
  by (simp add: select_outliers_eq count_annotated_def cand_xs_def cand_ys_def is_candidate_def
      pt_def np_std_value_single np_is_zero_def annotated_def)

lemma np_std_value_Fin:
  "np_std_value (map Fin rs) =
     (if rs = [] then NaN
      else Num (sqrt (sum_list (map (\<lambda>v. \<bar>v - sum_list rs / real (length rs)\<bar> ^ 2) rs)
                      / real (length rs))))"
  by (simp add: np_std_value_def Let_def)

lemma np_mean_Fin:
  "np_mean (map Fin rs) = (if rs = [] then NaN else Num (sum_list rs / real (length rs)))"
  by (simp add: np_mean_def)





subsection \<open>A sole candidate\<close>

lemma sole_candidate_cases:
  assumes "count_annotated ps < 10" and "candidates ps = [(i, el)]"
  shows "ps ! i = el" and "cand_xs ps = [p_x el]" and "cand_ys ps = [p_y el]"
    and "filter is_candidate ps = [el]"
proof -
  have "(i, el) \<in> set (candidates ps)"
    using assms(2) by simp
  then have "(i, el) \<in> set (enumerate 0 ps)"
    unfolding candidates_def by simp
  then show "ps ! i = el" by (simp add: in_set_enumerate_eq)
  show f: "filter is_candidate ps = [el]"
    using map_snd_candidates [of ps] by (simp add: assms(2))
  show "cand_xs ps = [p_x el]" "cand_ys ps = [p_y el]"
    by (simp_all add: cand_xs_def cand_ys_def f)
qed

lemma np_std_value_NonFinite: "NonFinite \<in> set vs \<Longrightarrow> np_std_value vs = NaN"
proof -
  have "NonFinite \<in> set vs \<Longrightarrow> those (map fin_opt vs) = None"
    by (induction vs) (auto split: option.splits)
  then show "NonFinite \<in> set vs \<Longrightarrow> np_std_value vs = NaN"
    by (simp add: np_std_value_def finite_values_def)
qed

lemma sole_candidate_finite:
  assumes "count_annotated ps < 10" and "candidates ps = [(i, el)]"
    and "p_x el \<noteq> TooBig" "p_y el \<noteq> TooBig" "p_x el \<noteq> NonFinite" "p_y el \<noteq> NonFinite"
  shows "select_outliers ps =
           Some (Inr (ps[i := el\<lparr>p_annotation := Some (p_name el)\<rparr>], [SameCoordinates 1]))"
proof -
  note sc = sole_candidate_cases [OF assms(1,2)]
  from assms(3-6) obtain a b where ab: "p_x el = Fin a" "p_y el = Fin b"
    by (cases "p_x el"; cases "p_y el") auto
  show ?thesis
    unfolding select_outliers_def Let_def
    using assms(1)
    by (simp add: assms(2) ab MAX_ANNOTATIONS_def np_std_def np_std_value_single np_is_zero_def
        set_annotation_def sc(1))
qed

lemma sole_candidate_overflow:
  assumes "count_annotated ps < 10" and "candidates ps = [(i, el)]"
    and "p_x el = TooBig \<or> p_y el = TooBig"
  shows "select_outliers ps = Some (Inl OverflowError)"
  using assms(1,3) by (auto simp: select_outliers_eq sole_candidate_cases [OF assms(1,2)])

lemma sole_candidate_non_finite:
  assumes "count_annotated ps < 10" and "candidates ps = [(i, el)]"
    and "p_x el \<noteq> TooBig" "p_y el \<noteq> TooBig" "p_x el = NonFinite \<or> p_y el = NonFinite"
  shows "select_outliers ps = Some (Inr (ps, []))"
proof -
  note sc = sole_candidate_cases [OF assms(1,2)]
  from assms(5)
  have nz: "\<not> (np_is_zero (np_std_value [p_x el]) \<and> np_is_zero (np_std_value [p_y el]))"
    by (auto simp: np_std_value_NonFinite np_is_zero_def)
  have nan: "np_gt (z_score [v] (np_std_value [v]) w) t = False" if "v = NonFinite" for v w t
    using that by (simp add: z_score_def np_std_value_NonFinite np_truthy_def np_div_def
        np_abs_def np_gt_def split: npfloat.splits prod.splits)
  have zero: "np_gt (z_score [v] (np_std_value [v]) w) t = False" if "v = Fin r" "0 \<le> t" for v w r t
    using that by (simp add: z_score_def np_std_value_single np_truthy_def np_gt_def)
  have no: "\<not> is_outlier ps t p" if "0 \<le> t" for t p
  proof -
    have "np_gt (z_score [v] (np_std_value [v]) w) t = False" if "v \<noteq> TooBig" for v w
      using that nan zero \<open>0 \<le> t\<close> by (cases v) auto
    with assms(3,4) show ?thesis
      by (simp add: is_outlier_def sc)
  qed
  then have oc: "outlier_count ps 1 = 0"
    by (simp add: outlier_count_def)
  have ct: "chosen_threshold ps = 1"
    using assms(1) by (simp add: chosen_threshold_def tried_thresholds_val oc)
  have "map (\<lambda>p. if is_outlier ps 1 p then annotated p else p) ps = ps"
    using no [of 1] by (simp add: map_idI)
  then show ?thesis
    using assms(1,3,4) nz by (simp add: select_outliers_eq sc ct)
qed

text \<open>
  Claim C5, as stated, fails. With ten annotated points already in the list (here ten
  excluded points), the selector stops at line 82 and the only candidate stays without an
  annotation. And a sole candidate with a coordinate that is \<^verbatim>\<open>nan\<close> or infinite is not
  annotated either: its standard deviation is \<^verbatim>\<open>nan\<close>, line 90 does not take it for zero,
  and a Z-score that is \<^verbatim>\<open>nan\<close> passes no threshold.
\<close>

theorem sole_candidate_not_annotated:
  "map snd (candidates
     (replicate 10 ((pt 9 9 ''kept'')\<lparr>p_annotate := Some False, p_annotation := Some ''note''\<rparr>)
      @ [pt 0 0 ''lonely''])) = [pt 0 0 ''lonely''] \<and>
   select_outliers
     (replicate 10 ((pt 9 9 ''kept'')\<lparr>p_annotate := Some False, p_annotation := Some ''note''\<rparr>)
      @ [pt 0 0 ''lonely'']) =
   Some (Inr (replicate 10 ((pt 9 9 ''kept'')\<lparr>p_annotate := Some False, p_annotation := Some ''note''\<rparr>)
              @ [pt 0 0 ''lonely''], [])) \<and>
   p_annotation (pt 0 0 ''lonely'') = None \<and>
   candidates [(pt 0 0 ''odd'')\<lparr>p_x := NonFinite\<rparr>] = [(0, (pt 0 0 ''odd'')\<lparr>p_x := NonFinite\<rparr>)] \<and>
   select_outliers [(pt 0 0 ''odd'')\<lparr>p_x := NonFinite\<rparr>] =
     Some (Inr ([(pt 0 0 ''odd'')\<lparr>p_x := NonFinite\<rparr>], [])) \<and>
   p_annotation ((pt 0 0 ''odd'')\<lparr>p_x := NonFinite\<rparr>) = None"
proof -
  have a: "count_annotated [(pt 0 0 ''odd'')\<lparr>p_x := NonFinite\<rparr>] < 10"
    by (simp add: count_annotated_def pt_def)
  have c: "candidates [(pt 0 0 ''odd'')\<lparr>p_x := NonFinite\<rparr>] = [(0, (pt 0 0 ''odd'')\<lparr>p_x := NonFinite\<rparr>)]"
    by (simp add: candidates_def pt_def)
  have "select_outliers [(pt 0 0 ''odd'')\<lparr>p_x := NonFinite\<rparr>] =
     Some (Inr ([(pt 0 0 ''odd'')\<lparr>p_x := NonFinite\<rparr>], []))"
    by (rule sole_candidate_non_finite [OF a c]) (simp_all add: pt_def)
  moreover have "select_outliers
     (replicate 10 ((pt 9 9 ''kept'')\<lparr>p_annotate := Some False, p_annotation := Some ''note''\<rparr>)
      @ [pt 0 0 ''lonely'']) =
   Some (Inr (replicate 10 ((pt 9 9 ''kept'')\<lparr>p_annotate := Some False, p_annotation := Some ''note''\<rparr>)
              @ [pt 0 0 ''lonely''], []))"
    by (simp add: select_outliers_eq count_annotated_def pt_def)
  moreover have "map snd (candidates
     (replicate 10 ((pt 9 9 ''kept'')\<lparr>p_annotate := Some False, p_annotation := Some ''note''\<rparr>)
      @ [pt 0 0 ''lonely''])) = [pt 0 0 ''lonely'']"
    by (simp add: map_snd_candidates is_candidate_def pt_def)
  moreover have "p_annotation (pt 0 0 ''lonely'') = None"
    "p_annotation ((pt 0 0 ''odd'')\<lparr>p_x := NonFinite\<rparr>) = None"
    by (simp_all add: pt_def)
  ultimately show ?thesis using c by blast
qed

text \<open>
  Claim C5, amended. If fewer than ten points carry an annotation when the selector
  starts and the list has exactly one candidate, whose two coordinates are finite
  numbers, the selector sets the annotation of that candidate to its name (and logs the
  warning of line 91). When a coordinate of the candidate is \<^verbatim>\<open>nan\<close> or infinite the
  selector changes nothing, and when one is an int beyond the range of doubles
  \<^verbatim>\<open>np.std\<close> raises \<^verbatim>\<open>OverflowError\<close>.
\<close>

theorem sole_candidate_annotated:
  assumes "count_annotated ps < 10" and "candidates ps = [(i, el)]"
  shows "(p_x el \<noteq> TooBig \<and> p_y el \<noteq> TooBig \<and> p_x el \<noteq> NonFinite \<and> p_y el \<noteq> NonFinite \<longrightarrow>
            select_outliers ps =
              Some (Inr (ps[i := el\<lparr>p_annotation := Some (p_name el)\<rparr>], [SameCoordinates 1]))) \<and>
         (p_x el \<noteq> TooBig \<and> p_y el \<noteq> TooBig \<and> (p_x el = NonFinite \<or> p_y el = NonFinite) \<longrightarrow>
            select_outliers ps = Some (Inr (ps, []))) \<and>
         (p_x el = TooBig \<or> p_y el = TooBig \<longrightarrow> select_outliers ps = Some (Inl OverflowError))"
  using sole_candidate_finite [OF assms] sole_candidate_non_finite [OF assms]
    sole_candidate_overflow [OF assms]
  by blast

theorem sole_candidate_annotated_witness:
  "count_annotated [(pt 9 9 ''kept'')\<lparr>p_annotate := Some False\<rparr>, pt 3 4 ''only''] < 10 \<and>
   candidates [(pt 9 9 ''kept'')\<lparr>p_annotate := Some False\<rparr>, pt 3 4 ''only''] =
     [(1, pt 3 4 ''only'')] \<and>
   select_outliers [(pt 9 9 ''kept'')\<lparr>p_annotate := Some False\<rparr>, pt 3 4 ''only''] =
     Some (Inr ([(pt 9 9 ''kept'')\<lparr>p_annotate := Some False\<rparr>,
                 (pt 3 4 ''only'')\<lparr>p_annotation := Some ''only''\<rparr>], [SameCoordinates 1])) \<and>
   candidates [(pt 3 4 ''only'')\<lparr>p_y := NonFinite\<rparr>] = [(0, (pt 3 4 ''only'')\<lparr>p_y := NonFinite\<rparr>)] \<and>
   select_outliers [(pt 3 4 ''only'')\<lparr>p_y := NonFinite\<rparr>] =
     Some (Inr ([(pt 3 4 ''only'')\<lparr>p_y := NonFinite\<rparr>], [])) \<and>
   candidates [(pt 3 4 ''only'')\<lparr>p_x := TooBig\<rparr>] = [(0, (pt 3 4 ''only'')\<lparr>p_x := TooBig\<rparr>)] \<and>
   select_outliers [(pt 3 4 ''only'')\<lparr>p_x := TooBig\<rparr>] = Some (Inl OverflowError)"
proof -
  have a: "count_annotated [(pt 9 9 ''kept'')\<lparr>p_annotate := Some False\<rparr>, pt 3 4 ''only''] < 10"
    by (simp add: count_annotated_def pt_def)
  have b: "candidates [(pt 9 9 ''kept'')\<lparr>p_annotate := Some False\<rparr>, pt 3 4 ''only''] =
     [(1, pt 3 4 ''only'')]"
    by (simp add: candidates_def pt_def)
  have c: "count_annotated [(pt 3 4 ''only'')\<lparr>p_y := NonFinite\<rparr>] < 10"
    by (simp add: count_annotated_def pt_def)
  have d: "candidates [(pt 3 4 ''only'')\<lparr>p_y := NonFinite\<rparr>] = [(0, (pt 3 4 ''only'')\<lparr>p_y := NonFinite\<rparr>)]"
    by (simp add: candidates_def pt_def)
  have e: "count_annotated [(pt 3 4 ''only'')\<lparr>p_x := TooBig\<rparr>] < 10"
    by (simp add: count_annotated_def pt_def)
  have f: "candidates [(pt 3 4 ''only'')\<lparr>p_x := TooBig\<rparr>] = [(0, (pt 3 4 ''only'')\<lparr>p_x := TooBig\<rparr>)]"
    by (simp add: candidates_def pt_def)
  show ?thesis
    using sole_candidate_annotated [OF a b] sole_candidate_annotated [OF c d]
      sole_candidate_annotated [OF e f] a b d f
    by (simp add: pt_def)
qed

subsection \<open>No candidates, and the only error\<close>

lemma select_no_candidates:
  assumes "filter is_candidate ps = []"
  shows "select_outliers ps = Some (Inr (ps, []))"
proof -
  from assms have no: "\<And>el. el \<in> set ps \<Longrightarrow> \<not> is_candidate el"
    by (simp add: filter_empty_conv)
  have "map (\<lambda>el. if is_outlier ps t el then annotated el else el) ps = ps" for t
    using no by (simp add: is_outlier_def map_idI)
  then show ?thesis
    using assms
    by (simp add: select_outliers_eq cand_xs_def cand_ys_def np_std_value_def finite_values_def
        np_is_zero_def)
qed

text \<open>
  Claim C8, as stated, fails twice. The standard deviation of the empty array is \<open>NaN\<close>,
  which line 90 does not take for zero, so the selector goes through the branch of line
  95 and not through the one that logs the warning of line 91. And the selector can raise:
  on a candidate with a coordinate that is an int beyond the range of doubles,
  \<^verbatim>\<open>np.std\<close> raises \<^verbatim>\<open>OverflowError\<close> at line 88.
\<close>

theorem empty_std_is_not_zero:
  "np_std (cand_xs []) = Inr NaN \<and> \<not> np_is_zero (np_std_value (cand_xs [])) \<and>
   select_outliers [] = Some (Inr ([], [])) \<and>
   select_outliers [] \<noteq> Some (Inr ([], [SameCoordinates 0])) \<and>
   select_outliers [(pt 0 0 ''big'')\<lparr>p_x := TooBig\<rparr>] = Some (Inl OverflowError)"
  by (simp add: select_outliers_eq count_annotated_def cand_xs_def cand_ys_def np_std_def
      np_std_value_def finite_values_def np_is_zero_def is_candidate_def pt_def)

text \<open>
  Claim C8, amended. The selector always ends, and it raises in one case only: when fewer
  than ten points are annotated and a coordinate of a candidate is an int beyond the
  range of doubles, \<^verbatim>\<open>np.std\<close> raises \<^verbatim>\<open>OverflowError\<close>, before any point is changed. When no
  point is a candidate (the list may be empty) the selector does not raise, whatever the
  coordinates of the excluded points are; it returns the points unchanged and logs
  nothing: both standard deviations are \<open>NaN\<close>, not zero, and when fewer than ten points
  are annotated the search stops at its first threshold, 1.0.
\<close>

theorem selector_total_no_candidates:
  "(\<exists>r. select_outliers ps = Some r) \<and>
   ((\<exists>e. select_outliers ps = Some (Inl e)) =
      (count_annotated ps < 10 \<and> (TooBig \<in> set (cand_xs ps) \<or> TooBig \<in> set (cand_ys ps)))) \<and>
   (filter (\<lambda>el. p_annotate el \<noteq> Some False) ps = [] \<longrightarrow>
      select_outliers ps = Some (Inr (ps, [])) \<and>
      np_std (cand_xs ps) = Inr NaN \<and> np_std (cand_ys ps) = Inr NaN \<and>
      \<not> np_is_zero (np_std_value (cand_xs ps)) \<and>
      (count_annotated ps < 10 \<longrightarrow> chosen_threshold ps = 1))"
proof -
  have "select_outliers ps = Some (Inr (ps, []))"
       "np_std (cand_xs ps) = Inr NaN" "np_std (cand_ys ps) = Inr NaN"
       "\<not> np_is_zero (np_std_value (cand_xs ps))"
       "count_annotated ps < 10 \<Longrightarrow> chosen_threshold ps = 1"
    if "filter is_candidate ps = []"
  proof -
    from that have no: "\<And>el. el \<in> set ps \<Longrightarrow> \<not> is_candidate el"
      by (simp add: filter_empty_conv)
    show "np_std (cand_xs ps) = Inr NaN" "np_std (cand_ys ps) = Inr NaN"
      "\<not> np_is_zero (np_std_value (cand_xs ps))"
      using that
      by (simp_all add: cand_xs_def cand_ys_def np_std_def np_std_value_def finite_values_def
          np_is_zero_def)
    have oc: "outlier_count ps t = 0" for t
      using no by (simp add: outlier_count_def is_outlier_def)
    show "count_annotated ps < 10 \<Longrightarrow> chosen_threshold ps = 1"
      by (simp add: chosen_threshold_def oc tried_thresholds_val)
    show "select_outliers ps = Some (Inr (ps, []))"
      by (rule select_no_candidates [OF that])
  qed
  moreover have "\<exists>r. select_outliers ps = Some r"
    by (simp add: select_outliers_eq)
  moreover have "(\<exists>e. select_outliers ps = Some (Inl e)) =
      (count_annotated ps < 10 \<and> (TooBig \<in> set (cand_xs ps) \<or> TooBig \<in> set (cand_ys ps)))"
    by (auto simp: select_outliers_eq)
  ultimately show ?thesis
    by (simp add: is_candidate_def [abs_def])
qed

theorem selector_total_no_candidates_witness:
  "filter (\<lambda>el. p_annotate el \<noteq> Some False)
     [(pt 9 9 ''kept'')\<lparr>p_x := TooBig, p_annotate := Some False\<rparr>] = [] \<and>
   select_outliers [(pt 9 9 ''kept'')\<lparr>p_x := TooBig, p_annotate := Some False\<rparr>] =
     Some (Inr ([(pt 9 9 ''kept'')\<lparr>p_x := TooBig, p_annotate := Some False\<rparr>], [])) \<and>
   count_annotated [(pt 9 9 ''kept'')\<lparr>p_x := TooBig, p_annotate := Some False\<rparr>] < 10 \<and>
   chosen_threshold [(pt 9 9 ''kept'')\<lparr>p_x := TooBig, p_annotate := Some False\<rparr>] = 1 \<and>
   TooBig \<in> set (cand_ys [(pt 0 0 ''big'')\<lparr>p_y := TooBig\<rparr>]) \<and>
   count_annotated [(pt 0 0 ''big'')\<lparr>p_y := TooBig\<rparr>] < 10 \<and>
   select_outliers [(pt 0 0 ''big'')\<lparr>p_y := TooBig\<rparr>] = Some (Inl OverflowError)"
proof -
  have a: "TooBig \<in> set (cand_ys [(pt 0 0 ''big'')\<lparr>p_y := TooBig\<rparr>])"
    and b: "count_annotated [(pt 0 0 ''big'')\<lparr>p_y := TooBig\<rparr>] < 10"
    by (simp_all add: cand_ys_def is_candidate_def count_annotated_def pt_def)
  from selector_total_no_candidates [of "[(pt 0 0 ''big'')\<lparr>p_y := TooBig\<rparr>]"] a b
  obtain e where "select_outliers [(pt 0 0 ''big'')\<lparr>p_y := TooBig\<rparr>] = Some (Inl e)"
    by blast
  then have "select_outliers [(pt 0 0 ''big'')\<lparr>p_y := TooBig\<rparr>] = Some (Inl OverflowError)"
    by (cases e) simp
  then show ?thesis
    using selector_total_no_candidates
            [of "[(pt 9 9 ''kept'')\<lparr>p_x := TooBig, p_annotate := Some False\<rparr>]"] a b
    by (simp add: pt_def count_annotated_def)
qed

subsection \<open>Excluded points\<close>

lemma same_excluded:
  assumes "same_but_excluded_xy p q" and "p_annotate p = Some False"
  shows "p_annotate q = Some False" and "p_annotation q = p_annotation p"
    and "(annotated q)\<lparr>p_x := Fin 0, p_y := Fin 0\<rparr> = (annotated p)\<lparr>p_x := Fin 0, p_y := Fin 0\<rparr>"
proof -
  from assms have h: "q\<lparr>p_x := Fin 0, p_y := Fin 0\<rparr> = p\<lparr>p_x := Fin 0, p_y := Fin 0\<rparr>"
    by (simp add: same_but_excluded_xy_def)
  have "p_annotate (q\<lparr>p_x := Fin 0, p_y := Fin 0\<rparr>) = p_annotate (p\<lparr>p_x := Fin 0, p_y := Fin 0\<rparr>)"
    by (simp only: h)
  then show "p_annotate q = Some False" by (simp add: assms(2))
  have "p_annotation (q\<lparr>p_x := Fin 0, p_y := Fin 0\<rparr>) = p_annotation (p\<lparr>p_x := Fin 0, p_y := Fin 0\<rparr>)"
    by (simp only: h)
  then show "p_annotation q = p_annotation p" by simp
  have "p_name (q\<lparr>p_x := Fin 0, p_y := Fin 0\<rparr>) = p_name (p\<lparr>p_x := Fin 0, p_y := Fin 0\<rparr>)"
    by (simp only: h)
  then have n: "p_name q = p_name p" by simp
  have eq: "f (q\<lparr>p_x := Fin 0, p_y := Fin 0\<rparr>) = f (p\<lparr>p_x := Fin 0, p_y := Fin 0\<rparr>)" for f :: "point \<Rightarrow> 'b"
    by (simp only: h)
  show "(annotated q)\<lparr>p_x := Fin 0, p_y := Fin 0\<rparr> = (annotated p)\<lparr>p_x := Fin 0, p_y := Fin 0\<rparr>"
    using eq [of p_name] eq [of p_color] eq [of p_group] eq [of p_marker_size]
      eq [of p_marker_line_width] eq [of p_opacity] eq [of p_annotate] eq [of p_hide_in_legend]
    by (intro point.equality) (simp_all add: annotated_def)
qed

lemma same_candidate:
  "same_but_excluded_xy p q \<Longrightarrow> is_candidate q = is_candidate p"
proof (cases "p_annotate p = Some False")
  case True
  assume "same_but_excluded_xy p q"
  from same_excluded(1) [OF this True] True show ?thesis by (simp add: is_candidate_def)
next
  case False
  assume "same_but_excluded_xy p q"
  with False show ?thesis by (simp add: same_but_excluded_xy_def)
qed

lemma same_candidate_eq:
  "same_but_excluded_xy p q \<Longrightarrow> is_candidate p \<Longrightarrow> q = p"
  by (simp add: same_but_excluded_xy_def is_candidate_def)

lemma same_annotation:
  "same_but_excluded_xy p q \<Longrightarrow> p_annotation q = p_annotation p"
proof (cases "p_annotate p = Some False")
  case True
  assume "same_but_excluded_xy p q"
  from same_excluded(2) [OF this True] show ?thesis .
next
  case False
  assume "same_but_excluded_xy p q"
  with False show ?thesis by (simp add: same_but_excluded_xy_def)
qed

lemma same_annotated:
  "same_but_excluded_xy p q \<Longrightarrow> same_but_excluded_xy (annotated p) (annotated q)"
proof (cases "p_annotate p = Some False")
  case True
  assume "same_but_excluded_xy p q"
  from same_excluded(3) [OF this True] True show ?thesis
    by (simp add: same_but_excluded_xy_def annotated_def)
next
  case False
  assume "same_but_excluded_xy p q"
  with False show ?thesis by (simp add: same_but_excluded_xy_def annotated_def)
qed

lemma same_filter_candidates:
  "list_all2 same_but_excluded_xy ps qs \<Longrightarrow> filter is_candidate qs = filter is_candidate ps"
proof (induction rule: list_all2_induct)
  case Nil
  then show ?case by simp
next
  case (Cons p ps q qs)
  from same_candidate [OF Cons.hyps(1)] same_candidate_eq [OF Cons.hyps(1)] Cons.IH
  show ?case by (cases "is_candidate p") simp_all
qed

lemma same_count_annotated:
  "list_all2 same_but_excluded_xy ps qs \<Longrightarrow> count_annotated qs = count_annotated ps"
  unfolding count_annotated_def
proof (induction rule: list_all2_induct)
  case Nil
  then show ?case by simp
next
  case (Cons p ps q qs)
  from same_annotation [OF Cons.hyps(1)] Cons.IH show ?case by simp
qed

lemma is_outlier_cong:
  "filter is_candidate qs = filter is_candidate ps \<Longrightarrow> is_outlier qs t = is_outlier ps t"
  by (rule ext) (simp add: is_outlier_def cand_xs_def cand_ys_def)

lemma outlier_count_candidates:
  "outlier_count ps t = length (filter (is_outlier ps t) (filter is_candidate ps))"
proof -
  have "(is_candidate el \<and> is_outlier ps t el) = is_outlier ps t el" for el
    by (auto simp: is_outlier_def)
  then show ?thesis by (simp add: outlier_count_def)
qed

lemma same_outlier_count:
  assumes "list_all2 same_but_excluded_xy ps qs"
  shows "outlier_count qs t = outlier_count ps t"
  unfolding outlier_count_candidates
  by (simp add: same_filter_candidates [OF assms] is_outlier_cong [OF same_filter_candidates [OF assms]])

lemma same_chosen_threshold:
  assumes "list_all2 same_but_excluded_xy ps qs"
  shows "chosen_threshold qs = chosen_threshold ps"
  by (simp add: chosen_threshold_def same_outlier_count [OF assms] same_count_annotated [OF assms])

lemma same_map_selected:
  assumes "list_all2 same_but_excluded_xy ps qs"
    and "\<And>p. P p \<Longrightarrow> is_candidate p"
  shows "list_all2 same_but_excluded_xy
           (map (\<lambda>el. if P el then annotated el else el) ps)
           (map (\<lambda>el. if P el then annotated el else el) qs)"
proof -
  have step: "same_but_excluded_xy (if P p then annotated p else p) (if P q then annotated q else q)"
    if "same_but_excluded_xy p q" for p q
  proof (cases "is_candidate p")
    case True
    with that have "q = p" by (rule same_candidate_eq)
    with that show ?thesis by (simp add: same_annotated)
  next
    case False
    with that have "\<not> is_candidate q" by (simp add: same_candidate)
    with False assms(2) have "\<not> P p" "\<not> P q" by blast+
    with that show ?thesis by simp
  qed
  from assms(1) show ?thesis
  proof (induction rule: list_all2_induct)
    case Nil
    then show ?case by simp
  next
    case (Cons p ps q qs)
    from step [OF Cons.hyps(1)] Cons.IH show ?case by simp
  qed
qed

lemma same_select_outliers:
  assumes "list_all2 same_but_excluded_xy ps qs"
    and "select_outliers ps = Some (Inr (ps', logged))"
  shows "\<exists>qs'. select_outliers qs = Some (Inr (qs', logged)) \<and>
            list_all2 same_but_excluded_xy ps' qs'"
proof -
  note fc = same_filter_candidates [OF assms(1)]
  note ca = same_count_annotated [OF assms(1)]
  note ct = same_chosen_threshold [OF assms(1)]
  note oc = is_outlier_cong [OF fc]
  have xs: "cand_xs qs = cand_xs ps" "cand_ys qs = cand_ys ps"
    by (simp_all add: cand_xs_def cand_ys_def fc)
  have m1: "list_all2 same_but_excluded_xy
           (map (\<lambda>el. if is_candidate el then annotated el else el) ps)
           (map (\<lambda>el. if is_candidate el then annotated el else el) qs)"
    by (rule same_map_selected [OF assms(1)]) simp
  have m2: "list_all2 same_but_excluded_xy
           (map (\<lambda>el. if is_outlier ps (chosen_threshold ps) el then annotated el else el) ps)
           (map (\<lambda>el. if is_outlier ps (chosen_threshold ps) el then annotated el else el) qs)"
    by (rule same_map_selected [OF assms(1)]) (simp add: is_outlier_def)
  show ?thesis
    using assms(2)
    unfolding select_outliers_eq fc ca ct oc xs
    using assms(1) m1 m2 by (auto split: if_splits)
qed

lemma select_five_and_excluded:
  "select_outliers (five_and_excluded a b) =
     Some (Inr ([pt 0 0 ''a'', pt 0 0 ''b'', (pt a b ''ex'')\<lparr>p_annotate := Some False\<rparr>,
            pt 0 0 ''c'', (pt 5 0 ''far'')\<lparr>p_annotation := Some ''far''\<rparr>, pt 0 0 ''d''], []))"
proof -
  let ?ps = "five_and_excluded a b"
  have xs: "cand_xs ?ps = [Fin 0, Fin 0, Fin 0, Fin 5, Fin 0]"
    and ys: "cand_ys ?ps = [Fin 0, Fin 0, Fin 0, Fin 0, Fin 0]"
    by (simp_all add: five_and_excluded_def cand_xs_def cand_ys_def is_candidate_def pt_def)
  have sx: "np_std_value [Fin 0, Fin 0, Fin 0, Fin 5, Fin 0] = Num 2"
    using np_std_value_Fin [of "[0, 0, 0, 5, 0]"] by simp
  have sy: "np_std_value [Fin 0, Fin 0, Fin 0, Fin 0, Fin 0] = Num 0"
    using np_std_value_Fin [of "[0, 0, 0, 0, 0]"] by simp
  have mx: "np_mean [Fin 0, Fin 0, Fin 0, Fin 5, Fin 0] = Num 1"
    using np_mean_Fin [of "[0, 0, 0, 5, 0]"] by simp
  have z: "np_gt (z_score [Fin 0, Fin 0, Fin 0, Fin 5, Fin 0] (Num 2) v) t =
           (\<exists>r. v = Fin r \<and> t < \<bar>r - 1\<bar> / 2)" for v t
    by (cases v)
       (simp_all add: z_score_def mx np_truthy_def np_sub_def np_div_def np_abs_def np_gt_def)
  have zy: "np_gt (z_score vs (Num 0) v) t = (t < 0)" for vs v t
    by (simp add: z_score_def np_truthy_def np_gt_def)
  have out: "is_outlier ?ps 1 el = (is_candidate el \<and> (\<exists>r. p_x el = Fin r \<and> 1 < \<bar>r - 1\<bar> / 2))" for el
    unfolding is_outlier_def xs ys sx sy z zy by simp
  have oc: "outlier_count ?ps 1 = 1"
    unfolding outlier_count_def out
    by (simp add: five_and_excluded_def is_candidate_def pt_def)
  have ca: "count_annotated ?ps = 0"
    by (simp add: count_annotated_def five_and_excluded_def pt_def)
  have ct: "chosen_threshold ?ps = 1"
    by (simp add: chosen_threshold_def tried_thresholds_val oc ca)
  have "map (\<lambda>el. if is_outlier ?ps 1 el then annotated el else el) ?ps =
     [pt 0 0 ''a'', pt 0 0 ''b'', (pt a b ''ex'')\<lparr>p_annotate := Some False\<rparr>,
            pt 0 0 ''c'', (pt 5 0 ''far'')\<lparr>p_annotation := Some ''far''\<rparr>, pt 0 0 ''d'']"
    unfolding out by (simp add: five_and_excluded_def is_candidate_def pt_def annotated_def)
  then show ?thesis
    by (simp add: select_outliers_eq ca ct xs ys sx sy np_is_zero_def)
qed

text \<open>
  Claim C6. A point with \<^verbatim>\<open>annotate = False\<close> never receives an annotation from the
  selector, and its coordinates play no part in it: two lists that differ only in the
  coordinates of such points give the candidates the same means and standard deviations
  and the same threshold, and the selector adds the same annotations to both and logs
  the same.
\<close>

theorem excluded_points_ignored:
  assumes "list_all2 same_but_excluded_xy ps qs"
    and "select_outliers ps = Some (Inr (ps', logged))"
  shows "(\<exists>qs'. select_outliers qs = Some (Inr (qs', logged)) \<and>
               list_all2 same_but_excluded_xy ps' qs' \<and>
               map p_annotation qs' = map p_annotation ps') \<and>
         np_mean (cand_xs qs) = np_mean (cand_xs ps) \<and>
         np_std (cand_xs qs) = np_std (cand_xs ps) \<and>
         np_mean (cand_ys qs) = np_mean (cand_ys ps) \<and>
         np_std (cand_ys qs) = np_std (cand_ys ps) \<and>
         chosen_threshold qs = chosen_threshold ps \<and>
         (\<forall>i<length ps. p_annotate (ps ! i) = Some False \<longrightarrow>
              p_annotation (ps' ! i) = p_annotation (ps ! i))"
proof -
  from same_select_outliers [OF assms]
  obtain qs' where q: "select_outliers qs = Some (Inr (qs', logged))"
    and r: "list_all2 same_but_excluded_xy ps' qs'"
    by auto
  have "map p_annotation qs' = map p_annotation ps'"
    using r
  proof (induction rule: list_all2_induct)
    case Nil
    then show ?case by simp
  next
    case (Cons p ps q qs)
    from same_annotation [OF Cons.hyps(1)] Cons.IH show ?case by simp
  qed
  moreover have "p_annotation (ps' ! i) = p_annotation (ps ! i)"
    if "i < length ps" "p_annotate (ps ! i) = Some False" for i
    using select_outliers_nth(2) [OF assms(2) that(1)] that(2)
    by (auto simp: is_candidate_def)
  moreover have "cand_xs qs = cand_xs ps" "cand_ys qs = cand_ys ps"
    by (simp_all add: cand_xs_def cand_ys_def same_filter_candidates [OF assms(1)])
  ultimately show ?thesis
    using q r same_chosen_threshold [OF assms(1)] by auto
qed

theorem excluded_points_ignored_witness:
  "list_all2 same_but_excluded_xy (five_and_excluded 0 0) (five_and_excluded 1000 1000) \<and>
   select_outliers (five_and_excluded 0 0) =
     Some (Inr ([pt 0 0 ''a'', pt 0 0 ''b'', (pt 0 0 ''ex'')\<lparr>p_annotate := Some False\<rparr>,
            pt 0 0 ''c'', (pt 5 0 ''far'')\<lparr>p_annotation := Some ''far''\<rparr>, pt 0 0 ''d''], [])) \<and>
   map_option (map_sum id (map p_annotation \<circ> fst)) (select_outliers (five_and_excluded 1000 1000)) =
     Some (Inr [None, None, None, None, Some ''far'', None]) \<and>
   chosen_threshold (five_and_excluded 1000 1000) = chosen_threshold (five_and_excluded 0 0)"
proof -
  have a: "list_all2 same_but_excluded_xy (five_and_excluded 0 0) (five_and_excluded 1000 1000)"
    by (simp add: five_and_excluded_def same_but_excluded_xy_def pt_def)
  show ?thesis
    using excluded_points_ignored [OF a select_five_and_excluded [of 0 0]] a select_five_and_excluded [of 0 0]
    by (auto simp: pt_def)
qed

subsection \<open>A dataset on which the search runs out of thresholds\<close>

lemma sqrt_49: "sqrt 49 = 7"
  by (rule real_sqrt_unique) simp_all

lemma crowded_candidates: "filter is_candidate crowded = crowded"
  by (simp add: crowded_def is_candidate_def pt_def)

lemma crowded_xs: "cand_xs crowded = [Fin 50, Fin 0] @ replicate 48 (Fin 0)"
  and crowded_ys: "cand_ys crowded = [Fin 0, Fin 50] @ replicate 48 (Fin 0)"
  by (simp_all add: cand_xs_def cand_ys_def crowded_candidates)
     (simp_all add: crowded_def pt_def replicate_add [symmetric])

lemma crowded_stats:
  "np_mean ([Fin 50, Fin 0] @ replicate 48 (Fin 0)) = Num 1"
  "np_std_value ([Fin 50, Fin 0] @ replicate 48 (Fin 0)) = Num 7"
  "np_mean ([Fin 0, Fin 50] @ replicate 48 (Fin 0)) = Num 1"
  "np_std_value ([Fin 0, Fin 50] @ replicate 48 (Fin 0)) = Num 7"
  using np_mean_Fin [of "[50, 0] @ replicate 48 0"] np_std_value_Fin [of "[50, 0] @ replicate 48 0"]
    np_mean_Fin [of "[0, 50] @ replicate 48 0"] np_std_value_Fin [of "[0, 50] @ replicate 48 0"]
  by (simp_all add: sum_list_replicate sqrt_49)

lemma crowded_z:
  "np_gt (z_score ([Fin 50, Fin 0] @ replicate 48 (Fin 0)) (Num 7) v) t =
     (\<exists>r. v = Fin r \<and> t < \<bar>r - 1\<bar> / 7)"
  "np_gt (z_score ([Fin 0, Fin 50] @ replicate 48 (Fin 0)) (Num 7) v) t =
     (\<exists>r. v = Fin r \<and> t < \<bar>r - 1\<bar> / 7)"
  by (cases v; simp add: z_score_def crowded_stats np_truthy_def np_sub_def np_div_def
      np_abs_def np_gt_def del: append.simps)+

lemma crowded_outlier:
  "is_outlier crowded t el =
     (is_candidate el \<and> ((\<exists>r. p_x el = Fin r \<and> t < \<bar>r - 1\<bar> / 7) \<or>
                          (\<exists>r. p_y el = Fin r \<and> t < \<bar>r - 1\<bar> / 7)))"
  unfolding is_outlier_def crowded_xs crowded_ys crowded_stats crowded_z by simp

lemma crowded_outlier_count:
  "1 / 7 \<le> t \<Longrightarrow> t < 7 \<Longrightarrow> outlier_count crowded t = 2"
  unfolding outlier_count_def crowded_outlier
  by (simp add: crowded_def is_candidate_def pt_def)

lemma crowded_annotated: "count_annotated crowded = 9" "count_nonempty crowded = 9"
  by (simp_all add: count_annotated_def count_nonempty_def crowded_def pt_def truthy_str_def)

lemma crowded_exhausts:
  "\<forall>t\<in>set tried_thresholds. 10 < count_annotated crowded + outlier_count crowded t"
proof
  fix t assume "t \<in> set tried_thresholds"
  then have "1 / 7 \<le> t \<and> t < 7"
    unfolding tried_thresholds_val by auto
  then show "10 < count_annotated crowded + outlier_count crowded t"
    by (simp add: crowded_outlier_count crowded_annotated)
qed

lemma crowded_threshold: "chosen_threshold crowded = exit_threshold"
proof -
  have "find (\<lambda>t. count_annotated crowded + outlier_count crowded t \<le> 10) tried_thresholds = None"
    using crowded_exhausts by (auto simp: find_None_iff)
  then show ?thesis by (simp add: chosen_threshold_def)
qed

lemma select_crowded:
  "select_outliers crowded =
     Some (Inr ([(pt 50 0 ''A'')\<lparr>p_annotation := Some ''A''\<rparr>,
            (pt 0 50 ''B'')\<lparr>p_annotation := Some ''B''\<rparr>] @
           replicate 9 ((pt 0 0 ''n'')\<lparr>p_annotation := Some ''note''\<rparr>) @
           replicate 39 (pt 0 0 ''o''), []))"
proof -
  have "map (\<lambda>el. if is_outlier crowded exit_threshold el then annotated el else el) crowded =
        [(pt 50 0 ''A'')\<lparr>p_annotation := Some ''A''\<rparr>,
            (pt 0 50 ''B'')\<lparr>p_annotation := Some ''B''\<rparr>] @
           replicate 9 ((pt 0 0 ''n'')\<lparr>p_annotation := Some ''note''\<rparr>) @
           replicate 39 (pt 0 0 ''o'')"
    unfolding crowded_outlier exit_threshold_val
    by (simp add: crowded_def is_candidate_def pt_def annotated_def)
  then show ?thesis
    by (simp add: select_outliers_eq crowded_annotated crowded_threshold crowded_xs crowded_ys
        crowded_stats np_is_zero_def del: append.simps)
qed

subsection \<open>The cap on the number of annotations\<close>

lemma count_nonempty_le: "count_nonempty ps \<le> count_annotated ps"
  unfolding count_nonempty_def count_annotated_def
  by (induction ps) (auto simp: truthy_str_def)

lemma count_annotated_map:
  "count_annotated (map (\<lambda>el. if P el then annotated el else el) ps)
     \<le> count_annotated ps + length (filter P ps)"
  unfolding count_annotated_def
  by (induction ps) (auto simp: annotated_def)

text \<open>
  Claim C1, as stated, fails on the crowded dataset: nine points carry an annotation
  before the selector runs, the two far points pass every threshold the search tries, the
  search runs out of thresholds and both are annotated. Eleven points are annotated
  afterwards, and nine, not more than ten, were before.
\<close>

theorem cap_exceeded_on_crowded:
  "count_nonempty crowded = 9 \<and>
   map_option (map_sum id (count_nonempty \<circ> fst)) (select_outliers crowded) = Some (Inr 11)"
  by (simp add: select_crowded crowded_annotated)
     (simp add: count_nonempty_def truthy_str_def pt_def)

text \<open>
  Claim C1, amended. The selector never removes an annotation. After it has run, at most
  ten points carry a non-empty annotation, unless more than ten did before, or unless
  the search ran out of thresholds: at every threshold it tried, the annotated points
  and the outliers together were more than ten. In that last case every candidate above
  the final threshold is annotated, however many there are.
\<close>

theorem annotation_cap:
  assumes "select_outliers ps = Some (Inr (ps', logged))"
  shows "length ps' = length ps \<and>
         (\<forall>i<length ps. p_annotation (ps ! i) \<noteq> None \<longrightarrow> p_annotation (ps' ! i) \<noteq> None) \<and>
         (count_nonempty ps' \<le> 10 \<or> 10 < count_nonempty ps \<or>
          (\<forall>t\<in>set tried_thresholds. 10 < count_annotated ps + outlier_count ps t))"
proof -
  have keep: "p_annotation (ps' ! i) \<noteq> None" if "i < length ps" "p_annotation (ps ! i) \<noteq> None" for i
    using select_outliers_nth(2) [OF assms that(1)] that(2) by (auto simp: annotated_def)
  have cap: "count_nonempty ps' \<le> 10 \<or> 10 < count_nonempty ps \<or>
          (\<forall>t\<in>set tried_thresholds. 10 < count_annotated ps + outlier_count ps t)"
  proof (cases "count_annotated ps < 10")
    case False
    with assms have "ps' = ps" by (simp add: select_outliers_eq)
    then show ?thesis by auto
  next
    case small: True
    show ?thesis
    proof (cases "np_is_zero (np_std_value (cand_xs ps)) \<and> np_is_zero (np_std_value (cand_ys ps))")
      case True
      show ?thesis
      proof (cases "length (filter is_candidate ps) = 1")
        case one: True
        with assms small True
        have "ps' = map (\<lambda>el. if is_candidate el then annotated el else el) ps"
          by (simp add: select_outliers_eq split: if_splits)
        then have "count_annotated ps' \<le> count_annotated ps + 1"
          using count_annotated_map [of is_candidate ps] one by simp
        with small count_nonempty_le [of ps'] show ?thesis by simp
      next
        case False
        with assms small True have "ps' = ps"
          by (simp add: select_outliers_eq split: if_splits)
        with small count_nonempty_le [of ps] show ?thesis by simp
      qed
    next
      case False
      with assms small
      have ps': "ps' = map (\<lambda>el. if is_outlier ps (chosen_threshold ps) el then annotated el else el) ps"
        by (auto simp: select_outliers_eq split: if_splits)
      show ?thesis
      proof (cases "find (\<lambda>t. count_annotated ps + outlier_count ps t \<le> 10) tried_thresholds")
        case None
        then show ?thesis by (auto simp: find_None_iff not_le)
      next
        case (Some t)
        then have "count_annotated ps + outlier_count ps t \<le> 10"
          by (auto simp: find_Some_iff)
        moreover from Some have "chosen_threshold ps = t"
          by (simp add: chosen_threshold_def)
        ultimately show ?thesis
          using ps' count_annotated_map [of "is_outlier ps t" ps]
            count_nonempty_le [of ps']
          by (simp add: outlier_count_def)
      qed
    qed
  qed
  show ?thesis using select_outliers_nth(1) [OF assms] keep cap by blast
qed

theorem annotation_cap_witness:
  "select_outliers (five_and_excluded 1000 1000) =
     Some (Inr ([pt 0 0 ''a'', pt 0 0 ''b'', (pt 1000 1000 ''ex'')\<lparr>p_annotate := Some False\<rparr>,
            pt 0 0 ''c'', (pt 5 0 ''far'')\<lparr>p_annotation := Some ''far''\<rparr>, pt 0 0 ''d''], [])) \<and>
   count_nonempty [pt 0 0 ''a'', pt 0 0 ''b'', (pt 1000 1000 ''ex'')\<lparr>p_annotate := Some False\<rparr>,
            pt 0 0 ''c'', (pt 5 0 ''far'')\<lparr>p_annotation := Some ''far''\<rparr>, pt 0 0 ''d''] = 1"
  using annotation_cap [OF select_five_and_excluded [of 1000 1000]] select_five_and_excluded [of 1000 1000]
  by (simp add: count_nonempty_def truthy_str_def pt_def)

subsection \<open>The threshold search\<close>

text \<open>
  Claim C2, as stated, fails on the crowded dataset. No threshold fits there (at 6.0
  itself the annotated points and the outliers would still be eleven), and the
  threshold the loop leaves for the annotation step is not 6.0: it is the double
  6.000000000000003, the value that made the condition of line 100 false.
\<close>

theorem final_threshold_is_not_six:
  "count_annotated crowded +
     n_outliers (z_scores (cand_xs crowded) (np_std_value (cand_xs crowded)))
                (z_scores (cand_ys crowded) (np_std_value (cand_ys crowded))) 6 = 11 \<and>
   threshold_loop (count_annotated crowded)
      (z_scores (cand_xs crowded) (np_std_value (cand_xs crowded)))
      (z_scores (cand_ys crowded) (np_std_value (cand_ys crowded))) 1 =
     Some (6755399441055747 / 1125899906842624) \<and>
   (6755399441055747 / 1125899906842624 \<noteq> (6::real))"
proof -
  have "chosen_threshold crowded = 6755399441055747 / 1125899906842624"
    by (simp add: crowded_threshold exit_threshold_val)
  then show ?thesis
    unfolding threshold_loop_eq n_outliers_eq
    by (simp add: crowded_outlier_count crowded_annotated chosen_threshold_def MAX_ANNOTATIONS_def)
qed

text \<open>
  Claim C2, amended. The search starts at 1.0 and adds 0.2 as long as the threshold is at
  most 6.0; at each threshold it counts the candidates whose Z-score on either axis
  exceeds it, and it stops at the first threshold where the annotated points and the
  outliers are at most ten. When no threshold tried fits, the threshold used for the
  annotation step is not the last one tried: it is the value that ended the loop, one
  more step of 0.2 after the last threshold tried, which is above 6.0 and was itself
  never tried.
\<close>

theorem threshold_search:
  "threshold_loop n xz yz 1 =
     Some (case find (\<lambda>t. n + n_outliers xz yz t \<le> 10) tried_thresholds of
             Some t \<Rightarrow> t | None \<Rightarrow> exit_threshold) \<and>
   n_outliers xz yz t = length (filter (\<lambda>(a, b). np_gt a t \<or> np_gt b t) (zip xz yz)) \<and>
   tried_thresholds = thresholds_from 1 (length tried_thresholds) \<and>
   hd tried_thresholds = 1 \<and>
   list_all (\<lambda>t. t \<le> 6) tried_thresholds \<and>
   exit_threshold = threshold_after 1 (length tried_thresholds) \<and>
   exit_threshold = fadd (last tried_thresholds) lit_0_2 \<and>
   6 < exit_threshold \<and>
   exit_threshold \<notin> set tried_thresholds"
proof -
  have "threshold_loop n xz yz 1 =
     Some (case find (\<lambda>t. n + n_outliers xz yz t \<le> 10) tried_thresholds of
             Some t \<Rightarrow> t | None \<Rightarrow> exit_threshold)"
    using threshold_loop_eq [of n xz yz] by (simp add: MAX_ANNOTATIONS_def)
  moreover have "n_outliers xz yz t = length (filter (\<lambda>(a, b). np_gt a t \<or> np_gt b t) (zip xz yz))"
    by (simp add: n_outliers_def)
  moreover have len: "length tried_thresholds = 25"
    unfolding tried_thresholds_val by simp
  moreover have "tried_thresholds = thresholds_from 1 (length tried_thresholds)"
    unfolding len by (simp add: tried_thresholds_def)
  moreover have "exit_threshold = threshold_after 1 (length tried_thresholds)"
    unfolding len by (simp add: exit_threshold_def)
  moreover have "list_all (\<lambda>t. t \<le> 6) tried_thresholds"
    by (rule tried_thresholds_le)
  moreover have l: "last tried_thresholds = 3265109729843611 / 562949953421312"
    and "hd tried_thresholds = 1"
    unfolding tried_thresholds_val by simp_all
  moreover have "exit_threshold = fadd (last tried_thresholds) lit_0_2"
    unfolding l exit_threshold_val by (simp only: fadd_steps)
  moreover have "6 < exit_threshold"
    by (simp add: exit_threshold_val)
  moreover have "exit_threshold \<notin> set tried_thresholds"
    unfolding tried_thresholds_val exit_threshold_val by simp
  ultimately show ?thesis by blast
qed

subsection \<open>The legend\<close>

lemma names_fold:
  "fold (\<lambda>el m. m(legend_key_of el := insert (p_name el) (m (legend_key_of el)))) ps m k =
   m k \<union> p_name ` {el \<in> set ps. legend_key_of el = k}"
  by (induction ps arbitrary: m) auto

lemma names_by_legend_key_eq:
  "names_by_legend_key ps k = p_name ` {el \<in> set ps. legend_key_of el = k}"
  by (simp add: names_by_legend_key_def names_fold)

lemma point_trace_simps:
  "tr_showlegend (fst (point_trace params n nbk S el)) = (\<not> hidden el \<and> legend_key_of el \<notin> S)"
  "snd (point_trace params n nbk S el) = S \<union> visible_keys [el]"
  "tr_name (fst (point_trace params n nbk S el)) =
     (if \<not> hidden el \<and> legend_key_of el \<notin> S
      then legend_label (p_group el) (nbk (legend_key_of el)) else p_name el)"
  "tr_mode (fst (point_trace params n nbk S el)) =
     (if truthy_str (p_annotation el) then Some ''markers+text'' else tp_mode params)"
  by (auto simp: point_trace_def Let_def hidden_def visible_keys_def)

lemma visible_keys_Cons: "visible_keys (el # qs) = visible_keys [el] \<union> visible_keys qs"
  by (auto simp: visible_keys_def)

lemma visible_keys_snoc: "visible_keys (qs @ [el]) = visible_keys qs \<union> visible_keys [el]"
  by (auto simp: visible_keys_def)

lemma add_traces_snd:
  "snd (add_traces params n nbk S ps) = S \<union> visible_keys ps"
proof (induction ps arbitrary: S)
  case Nil
  then show ?case by (simp add: visible_keys_def)
next
  case (Cons el ps)
  show ?case
    using Cons.IH [of "S \<union> visible_keys [el]"] point_trace_simps(2) [of params n nbk S el]
    by (subst visible_keys_Cons) (auto simp: split_beta Let_def)
qed

lemma add_traces_length:
  "length (fst (add_traces params n nbk S ps)) = length ps"
  by (induction ps arbitrary: S) (auto simp: split_beta Let_def)

lemma add_traces_nth:
  "i < length ps \<Longrightarrow>
   fst (add_traces params n nbk S ps) ! i =
   fst (point_trace params n nbk (S \<union> visible_keys (take i ps)) (ps ! i))"
proof (induction ps arbitrary: S i)
  case Nil
  then show ?case by simp
next
  case (Cons el ps)
  show ?case
  proof (cases i)
    case 0
    then show ?thesis by (simp add: split_beta Let_def visible_keys_def)
  next
    case (Suc j)
    with Cons.prems have j: "j < length ps" by simp
    have "visible_keys (el # take j ps) = visible_keys [el] \<union> visible_keys (take j ps)"
      by (rule visible_keys_Cons)
    then show ?thesis
      using Cons.IH [OF j, of "S \<union> visible_keys [el]"] point_trace_simps(2) [of params n nbk S el]
      by (simp add: Suc split_beta Let_def Un_assoc)
  qed
qed

lemma visible_keys_take:
  "i \<le> length ps \<Longrightarrow>
   (k \<in> visible_keys (take i ps)) = (\<exists>j<i. \<not> hidden (ps ! j) \<and> legend_key_of (ps ! j) = k)"
proof -
  assume i: "i \<le> length ps"
  have "set (take i ps) = (!) ps ` {0..<i}"
    using i by (simp add: nth_image)
  then show ?thesis by (auto simp: visible_keys_def)
qed

text \<open>A trace is shown in the legend exactly when its point is the first point of its key
  that is not hidden.\<close>

lemma shown_iff_first_visible:
  assumes "i < length ps"
  shows "tr_showlegend (fst (add_traces params n nbk {} ps) ! i) =
         (\<not> hidden (ps ! i) \<and>
          (\<forall>j<i. legend_key_of (ps ! j) = legend_key_of (ps ! i) \<longrightarrow> hidden (ps ! j)))"
  using assms
  by (auto simp: add_traces_nth point_trace_simps(1) visible_keys_take)

lemma shown_name:
  assumes "i < length ps" and "tr_showlegend (fst (add_traces params n nbk {} ps) ! i)"
  shows "tr_name (fst (add_traces params n nbk {} ps) ! i) =
         legend_label (p_group (ps ! i)) (nbk (legend_key_of (ps ! i)))"
  using assms by (simp add: add_traces_nth point_trace_simps)

lemma one_shown_per_visible_key:
  assumes "i < length ps" and "\<not> hidden (ps ! i)"
  shows "\<exists>!j. j < length ps \<and> legend_key_of (ps ! j) = legend_key_of (ps ! i) \<and>
              tr_showlegend (fst (add_traces params n nbk {} ps) ! j)"
proof -
  let ?V = "\<lambda>j. j < length ps \<and> \<not> hidden (ps ! j) \<and> legend_key_of (ps ! j) = legend_key_of (ps ! i)"
  define m where "m = (LEAST j. ?V j)"
  have Vi: "?V i" using assms by simp
  then have Vm: "?V m" unfolding m_def by (rule LeastI)
  have least: "\<And>j. ?V j \<Longrightarrow> m \<le> j" unfolding m_def by (rule Least_le)
  have shown_m: "tr_showlegend (fst (add_traces params n nbk {} ps) ! m)"
  proof -
    have "hidden (ps ! j)" if "j < m" "legend_key_of (ps ! j) = legend_key_of (ps ! m)" for j
    proof (rule ccontr)
      assume "\<not> hidden (ps ! j)"
      with that Vm have "?V j" by simp
      from least [OF this] that(1) show False by simp
    qed
    with Vm show ?thesis by (simp add: shown_iff_first_visible)
  qed
  show ?thesis
  proof (rule ex1I [of _ m])
    show "m < length ps \<and> legend_key_of (ps ! m) = legend_key_of (ps ! i) \<and>
          tr_showlegend (fst (add_traces params n nbk {} ps) ! m)"
      using Vm shown_m by simp
  next
    fix j
    assume j: "j < length ps \<and> legend_key_of (ps ! j) = legend_key_of (ps ! i) \<and>
          tr_showlegend (fst (add_traces params n nbk {} ps) ! j)"
    then have lj: "j < length ps"
      and shj: "tr_showlegend (fst (add_traces params n nbk {} ps) ! j)"
      by simp_all
    from shj have sj: "\<not> hidden (ps ! j)"
      and fj: "\<forall>l<j. legend_key_of (ps ! l) = legend_key_of (ps ! j) \<longrightarrow> hidden (ps ! l)"
      unfolding shown_iff_first_visible [OF lj] by simp_all
    from j sj have "?V j" by simp
    from least [OF this] have "m \<le> j" .
    moreover have "\<not> m < j"
    proof
      assume "m < j"
      with fj Vm j show False by auto
    qed
    ultimately show "j = m" by simp
  qed
qed

text \<open>The selector leaves the names, the legend keys and the hidden flags as they were.\<close>

lemma annotated_legend [simp]:
  "legend_key_of (annotated el) = legend_key_of el" "hidden (annotated el) = hidden el"
  "p_name (annotated el) = p_name el" "p_group (annotated el) = p_group el"
  by (simp_all add: annotated_def legend_key_of_def hidden_def)

lemma select_outliers_legend:
  assumes "select_outliers ps = Some (Inr (ps', logged))" and "i < length ps"
  shows "legend_key_of (ps' ! i) = legend_key_of (ps ! i)" "hidden (ps' ! i) = hidden (ps ! i)"
    "p_name (ps' ! i) = p_name (ps ! i)" "p_group (ps' ! i) = p_group (ps ! i)"
  using select_outliers_nth(2) [OF assms] by auto

lemma select_outliers_names:
  assumes "select_outliers ps = Some (Inr (ps', logged))"
  shows "p_name ` {el \<in> set ps'. legend_key_of el = k} = p_name ` {el \<in> set ps. legend_key_of el = k}"
proof -
  have len: "length ps' = length ps" by (rule select_outliers_nth(1) [OF assms])
  have "p_name ` {el \<in> set qs. legend_key_of el = k} =
        {p_name (qs ! i) | i. i < length qs \<and> legend_key_of (qs ! i) = k}" for qs :: "point list"
    by (auto simp: in_set_conv_nth)
  then show ?thesis
    using select_outliers_legend(1,3) [OF assms] by (simp add: len) (safe; metis)
qed

lemma create_figure_traces:
  assumes "create_figure params height ps = Some (Inr (fig, ps', logged))"
  shows "select_outliers ps = Some (Inr (ps', logged))"
    and "\<exists>n. fig_traces fig = fst (add_traces params n (names_by_legend_key ps') {} ps')"
    and "length (fig_traces fig) = length ps"
proof -
  from assms show sel: "select_outliers ps = Some (Inr (ps', logged))"
    by (auto simp: create_figure_def Let_def split_beta split: option.splits sum.splits)
  from assms sel show "\<exists>n. fig_traces fig = fst (add_traces params n (names_by_legend_key ps') {} ps')"
    by (auto simp: create_figure_def Let_def split_beta)
  then show "length (fig_traces fig) = length ps"
    using select_outliers_nth(1) [OF sel] by (auto simp: add_traces_length)
qed

lemma figure_shown_iff:
  assumes "create_figure params height ps = Some (Inr (fig, ps', logged))" and "i < length ps"
  shows "tr_showlegend (fig_traces fig ! i) =
         (\<not> hidden (ps ! i) \<and>
          (\<forall>j<i. legend_key_of (ps ! j) = legend_key_of (ps ! i) \<longrightarrow> hidden (ps ! j)))"
proof -
  note sel = create_figure_traces(1) [OF assms(1)]
  have len: "length ps' = length ps" by (rule select_outliers_nth(1) [OF sel])
  from create_figure_traces(2) [OF assms(1)] obtain n where
    tr: "fig_traces fig = fst (add_traces params n (names_by_legend_key ps') {} ps')" ..
  have "j < length ps" if "j < i" for j using that assms(2) by simp
  then show ?thesis
    unfolding tr using assms(2)
    by (simp add: shown_iff_first_visible len select_outliers_legend [OF sel])
qed

lemma figure_shown_name:
  assumes "create_figure params height ps = Some (Inr (fig, ps', logged))" and "i < length ps"
    and "tr_showlegend (fig_traces fig ! i)"
  shows "tr_name (fig_traces fig ! i) =
         legend_label (p_group (ps ! i))
           (p_name ` {el \<in> set ps. legend_key_of el = legend_key_of (ps ! i)})"
proof -
  note sel = create_figure_traces(1) [OF assms(1)]
  have len: "length ps' = length ps" by (rule select_outliers_nth(1) [OF sel])
  from create_figure_traces(2) [OF assms(1)] obtain n where
    tr: "fig_traces fig = fst (add_traces params n (names_by_legend_key ps') {} ps')" ..
  show ?thesis
    using assms(2,3) unfolding tr
    by (simp add: shown_name len names_by_legend_key_eq select_outliers_names [OF sel]
        select_outliers_legend [OF sel])
qed

lemma figure_one_shown:
  assumes "create_figure params height ps = Some (Inr (fig, ps', logged))" and "i < length ps"
    and "\<not> hidden (ps ! i)"
  shows "\<exists>!j. j < length ps \<and> legend_key_of (ps ! j) = legend_key_of (ps ! i) \<and>
              tr_showlegend (fig_traces fig ! j)"
proof -
  note sel = create_figure_traces(1) [OF assms(1)]
  have len: "length ps' = length ps" by (rule select_outliers_nth(1) [OF sel])
  from create_figure_traces(2) [OF assms(1)] obtain n where
    tr: "fig_traces fig = fst (add_traces params n (names_by_legend_key ps') {} ps')" ..
  have "\<exists>!j. j < length ps' \<and> legend_key_of (ps' ! j) = legend_key_of (ps' ! i) \<and>
              tr_showlegend (fst (add_traces params n (names_by_legend_key ps') {} ps') ! j)"
    by (rule one_shown_per_visible_key)
       (use assms(2,3) in \<open>simp_all add: len select_outliers_legend [OF sel]\<close>)
  then show ?thesis
    unfolding tr len using assms(2)
    by (simp add: select_outliers_legend [OF sel] cong: conj_cong)
qed

lemma names_by_legend_key_list:
  "names_by_legend_key ps k = set (map p_name (filter (\<lambda>el. legend_key_of el = k) ps))"
  by (auto simp: names_by_legend_key_eq)

lemma map_option_sum_Inr:
  assumes "map_option (map_sum id f) c = Some (Inr v)"
  shows "\<exists>r. c = Some (Inr r) \<and> f r = v"
proof (cases c)
  case None
  with assms show ?thesis by simp
next
  case (Some a)
  with assms show ?thesis by (cases a) auto
qed

lemma label_A_B: "legend_label None {''B'', ''A''} = ''A, B''"
  by code_simp

lemma select_legend_example: "select_outliers legend_example = Some (Inr (legend_example, []))"
  by (rule select_no_candidates) (simp add: legend_example_def is_candidate_def pt_def)

lemma names_legend_example:
  "names_by_legend_key legend_example (None, None, None, None) = {''B'', ''A''}"
  by (simp add: names_by_legend_key_list legend_example_def legend_key_of_def pt_def)

lemma figure_legend_example:
  "map_option (map_sum id (\<lambda>(fig, ps', logged).
       (map tr_showlegend (fig_traces fig), map tr_name (fig_traces fig), fig_height fig)))
     (create_figure scatter_trace_params 500 legend_example) =
   Some (Inr ([False, True, False], [''B'', ''A, B'', ''C''], 505))"
proof -
  have "snd (add_traces scatter_trace_params n nbk {} legend_example) =
         {(None, None, None, None)}" for n nbk
    by (simp add: legend_example_def point_trace_def Let_def split_beta legend_key_of_def pt_def
        truthy_bool_def)
  moreover have "map tr_showlegend (fst (add_traces scatter_trace_params n nbk {} legend_example))
         = [False, True, False]" for n nbk
    by (simp add: legend_example_def point_trace_def Let_def split_beta legend_key_of_def pt_def
        truthy_bool_def)
  moreover have "map tr_name (fst (add_traces scatter_trace_params n nbk {} legend_example))
         = [''B'', legend_label None (nbk (None, None, None, None)), ''C'']" for n nbk
    by (simp add: legend_example_def point_trace_def Let_def split_beta legend_key_of_def pt_def
        truthy_bool_def)
  ultimately show ?thesis
    unfolding create_figure_def select_legend_example
    by (simp add: Let_def split_beta names_legend_example label_A_B)
qed

subsection \<open>One legend entry for each key\<close>

text \<open>
  Claim C4, as stated, fails on a key all of whose points are hidden from the legend:
  the third point of the example is alone with its key and is not marked.
\<close>

theorem hidden_key_has_no_entry:
  "map legend_key_of legend_example =
     [(None, None, None, None), (None, None, None, None), (Some ''red'', None, None, None)] \<and>
   map_option (map_sum id (\<lambda>(fig, ps', logged). map tr_showlegend (fig_traces fig)))
     (create_figure scatter_trace_params 500 legend_example) = Some (Inr [False, True, False])"
proof -
  have "map legend_key_of legend_example =
     [(None, None, None, None), (None, None, None, None), (Some ''red'', None, None, None)]"
    by (simp add: legend_example_def legend_key_of_def pt_def)
  moreover obtain r where r: "create_figure scatter_trace_params 500 legend_example = Some (Inr r)"
    using map_option_sum_Inr [OF figure_legend_example] by auto
  ultimately show ?thesis
    using figure_legend_example by (auto simp: split_beta)
qed

text \<open>
  Claim C4, amended. For every legend key carried by at least one point that is not
  hidden from the legend, exactly one point of that key is marked: the first one in the
  list that is not hidden. Its label is made of the distinct names of all points of the
  key, sorted and joined by commas, after the group and a colon when the group is a
  non-empty string, and cropped to 60 characters plus \<open>...\<close> when it is longer.
\<close>

theorem legend_entry_per_visible_key:
  assumes "create_figure params height ps = Some (Inr (fig, ps', logged))"
    and "i < length ps" and "\<not> truthy_bool (p_hide_in_legend (ps ! i))"
  shows "(\<exists>!j. j < length ps \<and> legend_key_of (ps ! j) = legend_key_of (ps ! i) \<and>
               tr_showlegend (fig_traces fig ! j)) \<and>
         (\<forall>j<length ps.
            legend_key_of (ps ! j) = legend_key_of (ps ! i) \<and> tr_showlegend (fig_traces fig ! j) \<longrightarrow>
            \<not> truthy_bool (p_hide_in_legend (ps ! j)) \<and>
            (\<forall>m<j. legend_key_of (ps ! m) = legend_key_of (ps ! i) \<longrightarrow>
                   truthy_bool (p_hide_in_legend (ps ! m))) \<and>
            tr_name (fig_traces fig ! j) =
              (let full = full_label (p_group (ps ! i))
                            (p_name ` {el \<in> set ps. legend_key_of el = legend_key_of (ps ! i)})
               in if 60 < length full then take 60 full @ ''...'' else full))"
proof -
  have one: "\<exists>!j. j < length ps \<and> legend_key_of (ps ! j) = legend_key_of (ps ! i) \<and>
               tr_showlegend (fig_traces fig ! j)"
    using figure_one_shown [OF assms(1,2)] assms(3) by (simp add: hidden_def)
  have rep: "\<not> truthy_bool (p_hide_in_legend (ps ! j)) \<and>
            (\<forall>m<j. legend_key_of (ps ! m) = legend_key_of (ps ! i) \<longrightarrow>
                   truthy_bool (p_hide_in_legend (ps ! m))) \<and>
            tr_name (fig_traces fig ! j) =
              (let full = full_label (p_group (ps ! i))
                            (p_name ` {el \<in> set ps. legend_key_of el = legend_key_of (ps ! i)})
               in if 60 < length full then take 60 full @ ''...'' else full)"
    if j: "j < length ps" and k: "legend_key_of (ps ! j) = legend_key_of (ps ! i)"
      and s: "tr_showlegend (fig_traces fig ! j)" for j
  proof -
    from k have g: "p_group (ps ! j) = p_group (ps ! i)"
      by (simp add: legend_key_of_def)
    from s have "\<not> hidden (ps ! j)"
      and "\<forall>m<j. legend_key_of (ps ! m) = legend_key_of (ps ! j) \<longrightarrow> hidden (ps ! m)"
      unfolding figure_shown_iff [OF assms(1) j] by simp_all
    moreover have "tr_name (fig_traces fig ! j) =
         legend_label (p_group (ps ! i))
           (p_name ` {el \<in> set ps. legend_key_of el = legend_key_of (ps ! i)})"
      using figure_shown_name [OF assms(1) j s] by (simp add: k g)
    ultimately show ?thesis
      by (simp add: hidden_def k legend_label_full Let_def)
  qed
  from one rep show ?thesis by blast
qed

lemma full_label_A_B: "full_label None {''B'', ''A''} = ''A, B''"
  unfolding full_label_def truthy_str_def by code_simp

theorem legend_entry_per_visible_key_witness:
  "1 < length legend_example \<and> \<not> truthy_bool (p_hide_in_legend (legend_example ! 1)) \<and>
   map_option (map_sum id
       (\<lambda>(fig, ps', logged). (tr_showlegend (fig_traces fig ! 1), tr_name (fig_traces fig ! 1))))
     (create_figure scatter_trace_params 500 legend_example) = Some (Inr (True, ''A, B''))"
proof -
  obtain fig ps' logged where
    h: "create_figure scatter_trace_params 500 legend_example = Some (Inr (fig, ps', logged))"
    using map_option_sum_Inr [OF figure_legend_example] by auto
  have a: "1 < length legend_example"
    and b: "\<not> truthy_bool (p_hide_in_legend (legend_example ! 1))"
    by (simp_all add: legend_example_def pt_def truthy_bool_def)
  have m: "map tr_showlegend (fig_traces fig) = [False, True, False]"
    using figure_legend_example by (simp add: h)
  then have "length (fig_traces fig) = 3"
    by (metis length_map length_Cons list.size(3) numeral_3_eq_3)
  then have "tr_showlegend (fig_traces fig ! 1) = map tr_showlegend (fig_traces fig) ! 1"
    by simp
  then have sh: "tr_showlegend (fig_traces fig ! 1)"
    by (simp add: m)
  have n: "p_name ` {el \<in> set legend_example. legend_key_of el = legend_key_of (legend_example ! 1)}
           = {''B'', ''A''}"
    unfolding names_legend_example [symmetric] names_by_legend_key_eq
    by (simp add: legend_example_def legend_key_of_def pt_def)
  have g: "p_group (legend_example ! 1) = None"
    by (simp add: legend_example_def pt_def)
  have "tr_name (fig_traces fig ! 1) = ''A, B''"
    using legend_entry_per_visible_key [OF h a b] sh a
    unfolding n g full_label_A_B Let_def by simp
  with sh show ?thesis using a b by (simp add: h)
qed

text \<open>
  Claim C10. The names under a legend key are collected from every point of the key,
  hidden or not; the label of a marked point is built from all of them, so it can hold
  the names of points that are never marked themselves (the witness: the label \<open>A, B\<close>
  holds the name of the hidden point \<open>B\<close>). A key all of whose points are hidden gets no
  legend entry.
\<close>

theorem legend_names_include_hidden:
  assumes "create_figure params height ps = Some (Inr (fig, ps', logged))"
  shows "names_by_legend_key ps k = p_name ` {el \<in> set ps. legend_key_of el = k} \<and>
         (\<forall>j<length ps. tr_showlegend (fig_traces fig ! j) \<longrightarrow>
            \<not> truthy_bool (p_hide_in_legend (ps ! j)) \<and>
            tr_name (fig_traces fig ! j) =
              legend_label (p_group (ps ! j)) (names_by_legend_key ps (legend_key_of (ps ! j)))) \<and>
         ((\<forall>el\<in>set ps. legend_key_of el = k \<longrightarrow> truthy_bool (p_hide_in_legend el)) \<longrightarrow>
          (\<forall>j<length ps. legend_key_of (ps ! j) = k \<longrightarrow> \<not> tr_showlegend (fig_traces fig ! j)))"
proof -
  have "\<not> truthy_bool (p_hide_in_legend (ps ! j)) \<and>
        tr_name (fig_traces fig ! j) =
          legend_label (p_group (ps ! j)) (names_by_legend_key ps (legend_key_of (ps ! j)))"
    if "j < length ps" "tr_showlegend (fig_traces fig ! j)" for j
    using figure_shown_name [OF assms that] that(2)
    unfolding figure_shown_iff [OF assms that(1)]
    by (simp add: names_by_legend_key_eq hidden_def)
  moreover have "\<not> tr_showlegend (fig_traces fig ! j)"
    if "\<forall>el\<in>set ps. legend_key_of el = k \<longrightarrow> truthy_bool (p_hide_in_legend el)"
      and "j < length ps" "legend_key_of (ps ! j) = k" for j
    using that unfolding figure_shown_iff [OF assms that(2)]
    by (simp add: hidden_def)
  ultimately show ?thesis
    by (simp add: names_by_legend_key_eq)
qed

theorem legend_names_include_hidden_witness:
  "names_by_legend_key legend_example (None, None, None, None) = {''B'', ''A''} \<and>
   map p_hide_in_legend legend_example = [Some True, None, Some True] \<and>
   map_option (map_sum id
       (\<lambda>(fig, ps', logged). (map tr_showlegend (fig_traces fig), map tr_name (fig_traces fig))))
     (create_figure scatter_trace_params 500 legend_example) =
     Some (Inr ([False, True, False], [''B'', ''A, B'', ''C'']))"
proof -
  obtain fig ps' logged where
    h: "create_figure scatter_trace_params 500 legend_example = Some (Inr (fig, ps', logged))"
    using map_option_sum_Inr [OF figure_legend_example] by auto
  have "map p_hide_in_legend legend_example = [Some True, None, Some True]"
    by (simp add: legend_example_def pt_def)
  then show ?thesis
    using legend_names_include_hidden [OF h, of "(None, None, None, None)"] figure_legend_example h names_legend_example
    by simp
qed

subsection \<open>Annotation mode\<close>

lemma figure_mode:
  assumes "create_figure params height ps = Some (Inr (fig, ps', logged))" and "i < length ps"
  shows "tr_mode (fig_traces fig ! i) =
         (if truthy_str (p_annotation (ps' ! i)) then Some ''markers+text'' else tp_mode params)"
proof -
  note sel = create_figure_traces(1) [OF assms(1)]
  have len: "length ps' = length ps" by (rule select_outliers_nth(1) [OF sel])
  from create_figure_traces(2) [OF assms(1)] obtain n where
    tr: "fig_traces fig = fst (add_traces params n (names_by_legend_key ps') {} ps')" ..
  show ?thesis
    unfolding tr using assms(2) by (simp add: add_traces_nth len point_trace_simps(4))
qed

lemma select_silent:
  "select_outliers [(pt 1 2 ''s'')\<lparr>p_annotate := Some False, p_annotation := Some ''''\<rparr>] =
   Some (Inr ([(pt 1 2 ''s'')\<lparr>p_annotate := Some False, p_annotation := Some ''''\<rparr>], []))"
  by (rule select_no_candidates) (simp add: is_candidate_def pt_def)

text \<open>
  Claim C7, as stated, fails on a point whose annotation is the empty string: the key is
  there, and the trace is not in annotation mode (its mode stays the one of the trace
  parameters, here none).
\<close>

theorem empty_annotation_no_text_mode:
  "map_option (map_sum id
       (\<lambda>(fig, ps', logged). (map p_annotation ps', map tr_mode (fig_traces fig))))
     (create_figure scatter_trace_params 500
        [(pt 1 2 ''s'')\<lparr>p_annotate := Some False, p_annotation := Some ''''\<rparr>]) =
   Some (Inr ([Some ''''], [None]))"
  unfolding create_figure_def select_silent
  by (simp add: Let_def split_beta point_trace_def scatter_trace_params_def truthy_str_def pt_def)

text \<open>
  Claim C7, amended. The trace of a point is emitted in annotation mode
  (\<^verbatim>\<open>markers+text\<close>) exactly when the point, as the selector left it, carries an
  annotation that is not the empty string; otherwise the mode is the one of the trace
  parameters of the dataset.
\<close>

theorem annotation_mode:
  assumes "create_figure params height ps = Some (Inr (fig, ps', logged))" and "i < length ps"
  shows "tr_mode (fig_traces fig ! i) =
           (if p_annotation (ps' ! i) \<noteq> None \<and> p_annotation (ps' ! i) \<noteq> Some ''''
            then Some ''markers+text'' else tp_mode params)"
  using figure_mode [OF assms]
  by (auto simp: truthy_str_def split: option.splits)

lemma select_only:
  "select_outliers [pt 3 4 ''only''] =
     Some (Inr ([(pt 3 4 ''only'')\<lparr>p_annotation := Some ''only''\<rparr>], [SameCoordinates 1]))"
  by (simp add: select_outliers_eq count_annotated_def cand_xs_def cand_ys_def is_candidate_def
      pt_def np_std_value_single np_is_zero_def annotated_def)

lemma figure_only:
  "map_option (map_sum id
       (\<lambda>(fig, ps', logged). (map p_annotation ps', map tr_mode (fig_traces fig))))
     (create_figure scatter_trace_params 500 [pt 3 4 ''only'']) =
   Some (Inr ([Some ''only''], [Some ''markers+text'']))"
  unfolding create_figure_def select_only
  by (simp add: Let_def split_beta point_trace_def scatter_trace_params_def truthy_str_def pt_def)

theorem annotation_mode_witness:
  "0 < length [pt 3 4 ''only''] \<and>
   map_option (map_sum id
       (\<lambda>(fig, ps', logged). (p_annotation (ps' ! 0), tr_mode (fig_traces fig ! 0))))
     (create_figure scatter_trace_params 500 [pt 3 4 ''only'']) =
   Some (Inr (Some ''only'', Some ''markers+text''))"
proof -
  obtain fig ps' logged where
    h: "create_figure scatter_trace_params 500 [pt 3 4 ''only''] = Some (Inr (fig, ps', logged))"
    using map_option_sum_Inr [OF figure_only] by auto
  have a: "0 < length [pt 3 4 ''only'']" by simp
  from figure_only h have "map p_annotation ps' = [Some ''only'']" by simp
  then have "p_annotation (ps' ! 0) = Some ''only''"
    by (cases ps') simp_all
  then show ?thesis
    using annotation_mode [OF h a] h by simp
qed

end
